theory Spec2Isabelle
  imports Main "HOL-Library.AList" "HOL-Library.Char_ord" "HOL-Library.List_Lexorder"
begin

section \<open>The RViz display of recognized objects (ork\_display.cpp)\<close>

text \<open>
  The display keeps three members: \<open>visuals_\<close> (a vector of shared pointers to
  \<open>OrkObjectVisual\<close>), \<open>mesh_resources_\<close> (object hash to mesh URI) and
  \<open>mesh_files_\<close> (object hash to the name of a temporary file, a
  \<open>std::map<std::string, std::string>\<close>). \<open>processMessage\<close> rebuilds the visuals
  from a \<open>RecognizedObjectArray\<close>; the destructor removes the temporary files.

  Everything the display calls but does not define (the database classes, pluginlib,
  \<open>tmpnam\<close>, the mesh loader, the frame manager) is a field of the record \<open>Env\<close>.
  Calls that the source does not wrap in \<open>try\<close> are taken to return normally.
\<close>

subsection \<open>Messages and visuals\<close>

datatype Vector3 = Vector3 int int int

datatype Quaternion = Quaternion int int int int

text \<open>
  \<open>object_recognition_msgs::RecognizedObject\<close>, the fields the display reads:
  \<open>type.db\<close>, \<open>type.key\<close>, \<open>header.frame_id\<close>, \<open>header.stamp\<close>. Positions and
  orientations are only handed on, never computed with, so their coordinates are
  carried as opaque numbers.
\<close>

record RecognizedObject =
  type_db :: string
  type_key :: string
  frame_id :: string
  stamp :: nat

text \<open>
  An \<open>OrkObjectVisual\<close>. \<open>vis_id\<close> is the identity of the object allocated by
  \<open>new\<close>; \<open>message\<close> is what \<open>setMessage\<close> stored (the object and its mesh
  resource), \<open>frame_position\<close> and \<open>frame_orientation\<close> what
  \<open>setFramePosition\<close> and \<open>setFrameOrientation\<close> stored. \<open>None\<close>: never called.
\<close>

record OrkObjectVisual =
  vis_id :: nat
  message :: "(RecognizedObject \<times> string) option"
  frame_position :: "Vector3 option"
  frame_orientation :: "Quaternion option"

definition new_OrkObjectVisual :: "nat \<Rightarrow> OrkObjectVisual" where
  "new_OrkObjectVisual i =
     \<lparr>vis_id = i, message = None, frame_position = None, frame_orientation = None\<rparr>"

definition setMessage :: "RecognizedObject \<Rightarrow> string \<Rightarrow> OrkObjectVisual \<Rightarrow> OrkObjectVisual" where
  "setMessage object mesh_resource v = v\<lparr>message := Some (object, mesh_resource)\<rparr>"

definition setFramePosition :: "Vector3 \<Rightarrow> OrkObjectVisual \<Rightarrow> OrkObjectVisual" where
  "setFramePosition p v = v\<lparr>frame_position := Some p\<rparr>"

definition setFrameOrientation :: "Quaternion \<Rightarrow> OrkObjectVisual \<Rightarrow> OrkObjectVisual" where
  "setFrameOrientation q v = v\<lparr>frame_orientation := Some q\<rparr>"

subsection \<open>The collaborators\<close>

text \<open>
  \<open>ObjectDbParameters::ObjectDbType\<close>. The source compares it with \<open>NONCORE\<close> only;
  \<open>CORE\<close> stands for every other enumerator.
\<close>

datatype ObjectDbType = NONCORE | CORE

text \<open>A database object, named by the parameters or the plugin it was made from.\<close>

datatype ObjectDb = ObjectDb string

text \<open>
  Modelled from the spec: the class \<open>ObjectInfo\<close> of object\_recognition\_core is not
  in the repository. Following the spec's object metadata service (\<open>has_field\<close>,
  \<open>get_field\<close>, \<open>has_attachment\<close>, \<open>get_attachment_stream\<close>) it is a document of
  named fields and named attachments; a default-constructed one has neither, and
  \<open>load_fields_and_attachments\<close> adds nothing to it.
\<close>

record ObjectInfo =
  info_fields :: "string \<rightharpoonup> string"
  info_attachments :: "string \<rightharpoonup> string"

definition ObjectInfo_default :: ObjectInfo where
  "ObjectInfo_default = \<lparr>info_fields = Map.empty, info_attachments = Map.empty\<rparr>"

definition has_field :: "ObjectInfo \<Rightarrow> string \<Rightarrow> bool" where
  "has_field info name = (info_fields info name \<noteq> None)"

definition get_field :: "ObjectInfo \<Rightarrow> string \<Rightarrow> string" where
  "get_field info name = (case info_fields info name of Some v \<Rightarrow> v | None \<Rightarrow> [])"

definition has_attachment :: "ObjectInfo \<Rightarrow> string \<Rightarrow> bool" where
  "has_attachment info name = (info_attachments info name \<noteq> None)"

text \<open>
  The environment of one call of \<open>processMessage\<close>:
  \<^item> \<open>db_params_type db\<close>: \<open>ObjectDbParameters(db).type()\<close>, of which the source only
    asks whether it is \<open>NONCORE\<close>;
  \<^item> \<open>db_params_raw_type db\<close>: \<open>db_params.raw().at("type").get_str()\<close>;
  \<^item> \<open>createInstance name\<close>: the plugin loader, \<open>None\<close> when it throws
    \<open>PluginlibException\<close>;
  \<^item> \<open>generateDb db\<close>: \<open>db_params.generateDb()\<close>, \<open>None\<close> for a null pointer;
  \<^item> \<open>fetch_info key db\<close>: the document that \<open>ObjectInfo(key, db)\<close> followed by
    \<open>load_fields_and_attachments()\<close> holds, \<open>None\<close> when the constructor throws;
    \<open>db\<close> is the pointer as \<open>get_db\<close> left it, \<open>None\<close> when null;
  \<^item> \<open>tmpnam n\<close>: the name the \<open>n\<close>-th call of \<open>std::tmpnam\<close> returns;
  \<^item> \<open>loadMeshFromResource uri\<close>: \<open>False\<close> when the loaded mesh \<open>isNull()\<close>;
  \<^item> \<open>getTransform frame stamp\<close>: the frame manager, \<open>None\<close> when it returns false.
\<close>

record Env =
  db_params_type :: "string \<Rightarrow> ObjectDbType"
  db_params_raw_type :: "string \<Rightarrow> string"
  createInstance :: "string \<Rightarrow> ObjectDb option"
  generateDb :: "string \<Rightarrow> ObjectDb option"
  fetch_info :: "string \<Rightarrow> ObjectDb option \<Rightarrow> ObjectInfo option"
  tmpnam :: "nat \<Rightarrow> string"
  loadMeshFromResource :: "string \<Rightarrow> bool"
  getTransform :: "string \<Rightarrow> nat \<Rightarrow> (Vector3 \<times> Quaternion) option"

subsection \<open>The display and what it does to the world\<close>

text \<open>
  What the display asks of its collaborators, in order. \<open>NewVisual\<close> is the allocation
  of a visual, \<open>RecordTempFile\<close> the assignment \<open>mesh_files_[object_hash] = file_name\<close>,
  \<open>Remove\<close> a call of \<open>std::remove\<close>.
\<close>

datatype Event =
    NewVisual nat
  | CreateInstance string
  | GenerateDb string
  | ObjectInfoQuery string
  | TmpFileWrite string
  | RecordTempFile string string
  | LoadMesh string
  | GetTransform string nat
  | RosError string
  | RosDebug string
  | Remove string

text \<open>
  The members of the class, followed by the part of the world that the display acts
  on: the number of visuals allocated so far and of \<open>tmpnam\<close> calls made so far, the
  files that exist, and the trace of events. The members \<open>visuals_\<close>,
  \<open>mesh_resources_\<close> and \<open>mesh_files_\<close> lose their last character, which a name
  cannot end with here. \<open>mesh_files_\<close> is a \<open>std::map\<close>: an association list, updated in
  place and read in the order of its keys.
\<close>

record OrkObjectDisplay =
  visuals :: "OrkObjectVisual list"
  mesh_resources :: "string \<rightharpoonup> string"
  mesh_files :: "(string \<times> string) list"
  next_visual :: nat
  tmpnam_calls :: nat
  files :: "string set"
  trace :: "Event list"

definition OrkObjectDisplay_new :: OrkObjectDisplay where
  "OrkObjectDisplay_new =
     \<lparr>visuals = [], mesh_resources = Map.empty, mesh_files = [],
      next_visual = 0, tmpnam_calls = 0, files = {}, trace = []\<rparr>"

definition emit :: "Event \<Rightarrow> OrkObjectDisplay \<Rightarrow> OrkObjectDisplay" where
  "emit e st = st\<lparr>trace := trace st @ [e]\<rparr>"

text \<open>
  A call through the local shared pointer \<open>visual\<close>. The pointer is the one pushed
  onto \<open>visuals_\<close> last, and nothing is pushed between that and the calls through it,
  so the call changes the last element of the vector.
\<close>

definition update_visual ::
  "(OrkObjectVisual \<Rightarrow> OrkObjectVisual) \<Rightarrow> OrkObjectDisplay \<Rightarrow> OrkObjectDisplay" where
  "update_visual f st =
     st\<lparr>visuals := (if visuals st = [] then []
                     else butlast (visuals st) @ [f (last (visuals st))])\<rparr>"

subsection \<open>processMessage\<close>

text \<open>\<open>std::string object_hash = object.type.db + object.type.key;\<close>\<close>

definition object_hash :: "RecognizedObject \<Rightarrow> string" where
  "object_hash object = type_db object @ type_key object"

text \<open>Lines 114 to 129: get the database, loading the plugin of a non-core one.\<close>

definition get_db :: "Env \<Rightarrow> string \<Rightarrow> OrkObjectDisplay \<Rightarrow> ObjectDb option \<times> OrkObjectDisplay" where
  "get_db env db st =
     (if db_params_type env db = NONCORE then
        (let name = db_params_raw_type env db;
             st1 = emit (CreateInstance name) st
         in case createInstance env name of
              None \<Rightarrow> (None, emit (RosError ''The plugin failed to load for some reason.'') st1)
            | Some d \<Rightarrow> (Some d, st1))
      else (generateDb env db, emit (GenerateDb db) st))"

text \<open>Lines 131 to 139: get information about the object.\<close>

definition get_object_info ::
  "Env \<Rightarrow> string \<Rightarrow> ObjectDb option \<Rightarrow> OrkObjectDisplay \<Rightarrow> ObjectInfo \<times> OrkObjectDisplay" where
  "get_object_info env key db st =
     (let st1 = emit (ObjectInfoQuery key) st
      in case fetch_info env key db of
           None \<Rightarrow> (ObjectInfo_default,
                     emit (RosError ''Cannot retrieve load mesh Object db not initialized'') st1)
         | Some info \<Rightarrow> (info, st1))"

text \<open>
  Lines 141 to 154: the mesh URI of the object, written to a temporary file when the
  mesh is an attachment. The empty string when the object has neither.
\<close>

definition use_mesh_info ::
  "Env \<Rightarrow> string \<Rightarrow> ObjectInfo \<Rightarrow> OrkObjectDisplay \<Rightarrow> string \<times> OrkObjectDisplay" where
  "use_mesh_info env hash info st =
     (if has_field info ''mesh_uri'' then (get_field info ''mesh_uri'', st)
      else if has_attachment info ''mesh'' then
        (let file_name = tmpnam env (tmpnam_calls st) @ ''.stl'';
             st1 = st\<lparr>tmpnam_calls := Suc (tmpnam_calls st),
                      files := insert file_name (files st),
                      trace := trace st @ [TmpFileWrite file_name]\<rparr>;
             st2 = st1\<lparr>mesh_files := AList.update hash file_name (mesh_files st1),
                       trace := trace st1 @ [RecordTempFile hash file_name]\<rparr>
         in (''file://'' @ file_name, st2))
      else ([], st))"

text \<open>
  Lines 107 to 165. The result is the mesh resource, whether the loop goes on
  (\<open>False\<close>: the \<open>return\<close> of line 162) and the new state.
\<close>

definition resolve_mesh ::
  "Env \<Rightarrow> RecognizedObject \<Rightarrow> OrkObjectDisplay \<Rightarrow> (string \<times> bool) \<times> OrkObjectDisplay" where
  "resolve_mesh env object st =
     (let hash = object_hash object
      in case mesh_resources st hash of
           Some mesh_resource \<Rightarrow> ((mesh_resource, True), st)
         | None \<Rightarrow>
             (let (db, st1) = get_db env (type_db object) st;
                  (info, st2) = get_object_info env (type_key object) db st1;
                  (mesh_resource, st3) = use_mesh_info env hash info st2
              in if mesh_resource \<noteq> [] then
                   (let st4 = st3\<lparr>mesh_resources := (mesh_resources st3)(hash \<mapsto> mesh_resource)\<rparr>;
                        st5 = emit (LoadMesh mesh_resource) st4
                    in if loadMeshFromResource env mesh_resource
                       then ((mesh_resource, True), st5)
                       else ((mesh_resource, False),
                             emit (RosDebug (''Could not load ['' @ mesh_resource @ '']'')) st5))
                 else ((mesh_resource, True), st3)))"

text \<open>Lines 100 to 105: create a new visual and push it onto \<open>visuals_\<close>.\<close>

definition push_new_visual :: "OrkObjectDisplay \<Rightarrow> OrkObjectDisplay" where
  "push_new_visual st =
     st\<lparr>visuals := visuals st @ [new_OrkObjectVisual (next_visual st)],
        next_visual := Suc (next_visual st),
        trace := trace st @ [NewVisual (next_visual st)]\<rparr>"

text \<open>
  Lines 167 to 180: define the visual, then look up the transform and place the
  visual. \<open>False\<close> in the result is the \<open>return\<close> of line 176.
\<close>

definition place_visual ::
  "Env \<Rightarrow> RecognizedObject \<Rightarrow> string \<Rightarrow> OrkObjectDisplay \<Rightarrow> bool \<times> OrkObjectDisplay" where
  "place_visual env object mesh_resource st =
     (let st1 = update_visual (setMessage object mesh_resource) st;
          st2 = emit (GetTransform (frame_id object) (stamp object)) st1
      in case getTransform env (frame_id object) (stamp object) of
           None \<Rightarrow> (False, emit (RosDebug ''Error transforming from frame'') st2)
         | Some (position, orientation) \<Rightarrow>
             (True, update_visual (setFrameOrientation orientation)
                      (update_visual (setFramePosition position) st2)))"

text \<open>One turn of the loop, lines 99 to 180. \<open>False\<close> in the result is a \<open>return\<close>.\<close>

definition process_object ::
  "Env \<Rightarrow> RecognizedObject \<Rightarrow> OrkObjectDisplay \<Rightarrow> bool \<times> OrkObjectDisplay" where
  "process_object env object st =
     (let st1 = push_new_visual st;
          ((mesh_resource, loaded), st2) = resolve_mesh env object st1
      in if \<not> loaded then (False, st2)
         else place_visual env object mesh_resource st2)"

text \<open>
  The loop over \<open>msg->objects\<close>. The flag of the result says whether the loop ran to
  its end (\<open>True\<close>) or was left by a \<open>return\<close> (\<open>False\<close>).
\<close>

fun process_objects ::
  "Env \<Rightarrow> RecognizedObject list \<Rightarrow> OrkObjectDisplay \<Rightarrow> bool \<times> OrkObjectDisplay" where
  "process_objects env [] st = (True, st)"
| "process_objects env (object # rest) st =
     (case process_object env object st of
        (True, st') \<Rightarrow> process_objects env rest st'
      | (False, st') \<Rightarrow> (False, st'))"

text \<open>\<open>visuals_.clear()\<close>, the first statement of \<open>processMessage\<close> and the body of \<open>reset\<close>.\<close>

definition clear_visuals :: "OrkObjectDisplay \<Rightarrow> OrkObjectDisplay" where
  "clear_visuals st = st\<lparr>visuals := []\<rparr>"

definition processMessage :: "Env \<Rightarrow> RecognizedObject list \<Rightarrow> OrkObjectDisplay \<Rightarrow> OrkObjectDisplay" where
  "processMessage env objects st = snd (process_objects env objects (clear_visuals st))"

definition reset :: "OrkObjectDisplay \<Rightarrow> OrkObjectDisplay" where
  "reset st = clear_visuals st"

text \<open>
  The destructor: \<open>std::remove\<close> on the value of every entry of \<open>mesh_files_\<close>, in the
  order of a \<open>std::map\<close>, that of the keys.
\<close>

definition std_remove :: "string \<Rightarrow> OrkObjectDisplay \<Rightarrow> OrkObjectDisplay" where
  "std_remove path st = st\<lparr>files := files st - {path}, trace := trace st @ [Remove path]\<rparr>"

definition removed_paths :: "OrkObjectDisplay \<Rightarrow> string list" where
  "removed_paths st = map snd (sort_key fst (mesh_files st))"

definition destructor :: "OrkObjectDisplay \<Rightarrow> OrkObjectDisplay" where
  "destructor st = fold std_remove (removed_paths st) st"

subsection \<open>The life of a display\<close>

text \<open>The messages a display receives, each with the environment it is processed in.\<close>

fun run :: "(Env \<times> RecognizedObject list) list \<Rightarrow> OrkObjectDisplay \<Rightarrow> OrkObjectDisplay" where
  "run [] st = st"
| "run ((env, objects) # ms) st = run ms (processMessage env objects st)"

text \<open>
  \<open>later st st'\<close>: the display can get from \<open>st\<close> to \<open>st'\<close>, by turns of the loop of
  \<open>processMessage\<close> and by clearing the visuals, in any number and order.
\<close>

inductive later :: "OrkObjectDisplay \<Rightarrow> OrkObjectDisplay \<Rightarrow> bool" where
  later_refl: "later st st"
| later_turn: "later st st' \<Longrightarrow> process_object env object st' = (b, st'') \<Longrightarrow> later st st''"
| later_clear: "later st st' \<Longrightarrow> later st (clear_visuals st')"

subsection \<open>Reading the trace and the environment\<close>

text \<open>The events between an earlier state and a later one.\<close>

definition events_since :: "OrkObjectDisplay \<Rightarrow> OrkObjectDisplay \<Rightarrow> Event list" where
  "events_since st st' = drop (length (trace st)) (trace st')"

text \<open>Calls of a database backend, and reads and writes of mesh files.\<close>

fun backend_or_disk :: "Event \<Rightarrow> bool" where
  "backend_or_disk (CreateInstance _) = True"
| "backend_or_disk (GenerateDb _) = True"
| "backend_or_disk (ObjectInfoQuery _) = True"
| "backend_or_disk (TmpFileWrite _) = True"
| "backend_or_disk (LoadMesh _) = True"
| "backend_or_disk _ = False"

fun is_TmpFileWrite :: "Event \<Rightarrow> bool" where
  "is_TmpFileWrite (TmpFileWrite _) = True"
| "is_TmpFileWrite _ = False"

fun recorded_path :: "Event \<Rightarrow> string option" where
  "recorded_path (RecordTempFile _ path) = Some path"
| "recorded_path _ = None"

definition recorded_paths :: "Event list \<Rightarrow> string list" where
  "recorded_paths evs = List.map_filter recorded_path evs"

text \<open>
  The database pointer that \<open>get_db\<close> leaves in \<open>db\<close>, and the metadata that
  \<open>get_object_info\<close> then finds for an object: \<open>None\<close> when the plugin failed to load
  or the object's information could not be retrieved.
\<close>

definition db_of :: "Env \<Rightarrow> string \<Rightarrow> ObjectDb option" where
  "db_of env db = fst (get_db env db OrkObjectDisplay_new)"

definition metadata_of :: "Env \<Rightarrow> RecognizedObject \<Rightarrow> ObjectInfo option" where
  "metadata_of env object = fetch_info env (type_key object) (db_of env (type_db object))"

text \<open>
  What the resolution of an object's mesh comes to in a state: the mesh resource that
  lines 107 to 165 leave in \<open>mesh_resource\<close>, and whether the loop goes on after them
  (\<open>False\<close>: the mesh could not be loaded, the \<open>return\<close> of line 162).
\<close>

definition mesh_resource_of :: "Env \<Rightarrow> RecognizedObject \<Rightarrow> OrkObjectDisplay \<Rightarrow> string" where
  "mesh_resource_of env object st = fst (fst (resolve_mesh env object st))"

definition mesh_loaded :: "Env \<Rightarrow> RecognizedObject \<Rightarrow> OrkObjectDisplay \<Rightarrow> bool" where
  "mesh_loaded env object st = snd (fst (resolve_mesh env object st))"

text \<open>
  The turn of the loop for an object takes the branch of lines 144 to 154: its hash is
  not in \<open>mesh_resources_\<close>, and its metadata has the attachment \<open>mesh\<close> and no field
  \<open>mesh_uri\<close>.
\<close>

definition writes_temp_file :: "Env \<Rightarrow> RecognizedObject \<Rightarrow> OrkObjectDisplay \<Rightarrow> bool" where
  "writes_temp_file env object st =
     (mesh_resources st (object_hash object) = None \<and>
      (case metadata_of env object of
         None \<Rightarrow> False
       | Some info \<Rightarrow> \<not> has_field info ''mesh_uri'' \<and> has_attachment info ''mesh''))"

text \<open>
  The events that only ask or tell a collaborator something, and the others, which
  create or destroy: a visual, a temporary file, an entry of \<open>mesh_files_\<close>.
\<close>

fun lookup_event :: "Event \<Rightarrow> bool" where
  "lookup_event (NewVisual _) = False"
| "lookup_event (TmpFileWrite _) = False"
| "lookup_event (RecordTempFile _ _) = False"
| "lookup_event (Remove _) = False"
| "lookup_event _ = True"

definition marks :: "Event list \<Rightarrow> Event list" where
  "marks evs = filter (\<lambda>e. \<not> lookup_event e) evs"

text \<open>Every visual allocated so far has an identity below the next one to be given out.\<close>

definition allocated :: "OrkObjectDisplay \<Rightarrow> bool" where
  "allocated st \<longleftrightarrow> (\<forall>i. NewVisual i \<in> set (trace st) \<longrightarrow> i < next_visual st)"

text \<open>
  The invariant of \<open>mesh_files_\<close>, for \<open>tmpnam\<close> returning the names \<open>nm 0\<close>,
  \<open>nm 1\<close>, ...: its values are the names of the temporary files written so far, in the
  order of writing, they are the paths ever recorded, and every hash it holds is in the
  cache as well.
\<close>

definition registry_inv :: "(nat \<Rightarrow> string) \<Rightarrow> OrkObjectDisplay \<Rightarrow> bool" where
  "registry_inv nm st \<longleftrightarrow>
     map snd (mesh_files st) = map (\<lambda>i. nm i @ ''.stl'') [0..<tmpnam_calls st] \<and>
     recorded_paths (trace st) = map snd (mesh_files st) \<and>
     fst ` set (mesh_files st) \<subseteq> dom (mesh_resources st)"

subsection \<open>An environment and objects to run the display on\<close>

definition ex_info :: "string \<Rightarrow> ObjectDb \<Rightarrow> ObjectInfo option" where
  "ex_info key db =
     (if key = ''cup'' then
        Some \<lparr>info_fields = [''mesh_uri'' \<mapsto> ''package://meshes/cup.stl''], info_attachments = Map.empty\<rparr>
      else if key = ''can'' then
        Some \<lparr>info_fields = Map.empty, info_attachments = [''mesh'' \<mapsto> ''solid can'']\<rparr>
      else if key = ''bad'' then
        Some \<lparr>info_fields = [''mesh_uri'' \<mapsto> ''package://meshes/broken.stl''], info_attachments = Map.empty\<rparr>
      else if key = ''up'' then
        Some \<lparr>info_fields = [''mesh_uri'' \<mapsto> ''package://meshes/up.stl''], info_attachments = Map.empty\<rparr>
      else if key = ''box'' then
        Some \<lparr>info_fields = Map.empty, info_attachments = Map.empty\<rparr>
      else None)"

definition ex_tmpnam :: "nat \<Rightarrow> string" where
  "ex_tmpnam n = ''/tmp/file'' @ replicate n (CHR ''a'')"

definition ex_env :: Env where
  "ex_env =
     \<lparr>db_params_type = (\<lambda>db. if db = ''{plugin}'' then NONCORE else CORE),
      db_params_raw_type = (\<lambda>db. ''plugin''),
      createInstance = (\<lambda>name. None),
      generateDb = (\<lambda>db. Some (ObjectDb db)),
      fetch_info = (\<lambda>key db. case db of None \<Rightarrow> None | Some d \<Rightarrow> ex_info key d),
      tmpnam = ex_tmpnam,
      loadMeshFromResource = (\<lambda>uri. uri \<noteq> ''package://meshes/broken.stl''),
      getTransform = (\<lambda>frame t. if frame = ''camera''
                                  then Some (Vector3 1 2 3, Quaternion 1 0 0 0) else None)\<rparr>"

definition ex_object :: "string \<Rightarrow> string \<Rightarrow> string \<Rightarrow> RecognizedObject" where
  "ex_object db key frame = \<lparr>type_db = db, type_key = key, frame_id = frame, stamp = 0\<rparr>"

section \<open>Properties\<close>


subsection \<open>What each stage leaves alone\<close>

lemma emit_fields [simp]:
  "visuals (emit e st) = visuals st"
  "mesh_resources (emit e st) = mesh_resources st"
  "mesh_files (emit e st) = mesh_files st"
  "next_visual (emit e st) = next_visual st"
  "tmpnam_calls (emit e st) = tmpnam_calls st"
  "files (emit e st) = files st"
  "trace (emit e st) = trace st @ [e]"
  by (simp_all add: emit_def)

lemma update_visual_fields [simp]:
  "mesh_resources (update_visual f st) = mesh_resources st"
  "mesh_files (update_visual f st) = mesh_files st"
  "next_visual (update_visual f st) = next_visual st"
  "tmpnam_calls (update_visual f st) = tmpnam_calls st"
  "files (update_visual f st) = files st"
  "trace (update_visual f st) = trace st"
  by (simp_all add: update_visual_def)

lemma update_visual_snoc:
  "visuals st = vs @ [v] \<Longrightarrow> visuals (update_visual f st) = vs @ [f v]"
  by (simp add: update_visual_def)

lemma clear_visuals_fields [simp]:
  "visuals (clear_visuals st) = []"
  "mesh_resources (clear_visuals st) = mesh_resources st"
  "mesh_files (clear_visuals st) = mesh_files st"
  "next_visual (clear_visuals st) = next_visual st"
  "tmpnam_calls (clear_visuals st) = tmpnam_calls st"
  "files (clear_visuals st) = files st"
  "trace (clear_visuals st) = trace st"
  by (simp_all add: clear_visuals_def)

lemma push_new_visual_fields [simp]:
  "visuals (push_new_visual st) = visuals st @ [new_OrkObjectVisual (next_visual st)]"
  "mesh_resources (push_new_visual st) = mesh_resources st"
  "mesh_files (push_new_visual st) = mesh_files st"
  "next_visual (push_new_visual st) = Suc (next_visual st)"
  "tmpnam_calls (push_new_visual st) = tmpnam_calls st"
  "files (push_new_visual st) = files st"
  "trace (push_new_visual st) = trace st @ [NewVisual (next_visual st)]"
  by (simp_all add: push_new_visual_def)

lemma get_db_fields [simp]:
  "visuals (snd (get_db env db st)) = visuals st"
  "mesh_resources (snd (get_db env db st)) = mesh_resources st"
  "mesh_files (snd (get_db env db st)) = mesh_files st"
  "next_visual (snd (get_db env db st)) = next_visual st"
  "tmpnam_calls (snd (get_db env db st)) = tmpnam_calls st"
  "files (snd (get_db env db st)) = files st"
  by (simp_all add: get_db_def Let_def split: option.splits)

lemma get_db_value [simp]: "fst (get_db env db st) = db_of env db"
  by (simp add: db_of_def get_db_def Let_def split: option.splits)

lemma get_db_trace: "\<exists>evs. trace (snd (get_db env db st)) = trace st @ evs"
  by (simp add: get_db_def Let_def split: option.splits)

lemma get_object_info_fields [simp]:
  "visuals (snd (get_object_info env key db st)) = visuals st"
  "mesh_resources (snd (get_object_info env key db st)) = mesh_resources st"
  "mesh_files (snd (get_object_info env key db st)) = mesh_files st"
  "next_visual (snd (get_object_info env key db st)) = next_visual st"
  "tmpnam_calls (snd (get_object_info env key db st)) = tmpnam_calls st"
  "files (snd (get_object_info env key db st)) = files st"
  by (simp_all add: get_object_info_def Let_def split: option.splits)

lemma get_object_info_value:
  "fst (get_object_info env key db st) =
     (case fetch_info env key db of None \<Rightarrow> ObjectInfo_default | Some info \<Rightarrow> info)"
  by (simp add: get_object_info_def Let_def split: option.splits)

lemma get_object_info_trace:
  "\<exists>evs. trace (snd (get_object_info env key db st)) = trace st @ ObjectInfoQuery key # evs"
  by (simp add: get_object_info_def Let_def split: option.splits)

lemma use_mesh_info_fields [simp]:
  "visuals (snd (use_mesh_info env hash info st)) = visuals st"
  "mesh_resources (snd (use_mesh_info env hash info st)) = mesh_resources st"
  "next_visual (snd (use_mesh_info env hash info st)) = next_visual st"
  by (simp_all add: use_mesh_info_def Let_def)


lemma use_mesh_info_cong:
  "tmpnam_calls st' = tmpnam_calls st \<Longrightarrow>
   fst (use_mesh_info env hash info st') = fst (use_mesh_info env hash info st)"
  by (simp add: use_mesh_info_def Let_def)

lemma use_mesh_info_trace:
  "\<exists>evs. trace (snd (use_mesh_info env hash info st)) = trace st @ evs"
  by (simp add: use_mesh_info_def Let_def)

lemma use_mesh_info_default [simp]:
  "use_mesh_info env hash ObjectInfo_default st = ([], st)"
  by (simp add: use_mesh_info_def ObjectInfo_default_def has_field_def has_attachment_def)

lemma resolve_mesh_fields [simp]:
  "visuals (snd (resolve_mesh env d st)) = visuals st"
  "next_visual (snd (resolve_mesh env d st)) = next_visual st"
  by (simp_all add: resolve_mesh_def Let_def case_prod_beta emit_def split: option.splits)

lemma resolve_mesh_hit:
  "mesh_resources st (object_hash d) = Some u \<Longrightarrow> resolve_mesh env d st = ((u, True), st)"
  by (simp add: resolve_mesh_def)

lemma resolve_mesh_cache:
  "mesh_resources (snd (resolve_mesh env d st)) =
     (if mesh_resources st (object_hash d) = None \<and> fst (fst (resolve_mesh env d st)) \<noteq> []
      then (mesh_resources st)(object_hash d \<mapsto> fst (fst (resolve_mesh env d st)))
      else mesh_resources st)"
  by (simp add: resolve_mesh_def Let_def case_prod_beta emit_def split: option.splits)

lemma resolve_mesh_not_loaded:
  "\<not> snd (fst (resolve_mesh env d st)) \<Longrightarrow>
   mesh_resources st (object_hash d) = None \<and> fst (fst (resolve_mesh env d st)) \<noteq> [] \<and>
   \<not> loadMeshFromResource env (fst (fst (resolve_mesh env d st)))"
  by (simp add: resolve_mesh_def Let_def case_prod_beta split: option.splits if_splits)

lemma resolve_mesh_trace:
  "\<exists>evs. trace (snd (resolve_mesh env d st)) = trace st @ evs"
proof (cases "mesh_resources st (object_hash d)")
  case (Some u)
  then show ?thesis by (simp add: resolve_mesh_hit)
next
  case None
  obtain e1 where e1: "trace (snd (get_db env (type_db d) st)) = trace st @ e1"
    using get_db_trace by blast
  obtain e2 where e2:
    "trace (snd (get_object_info env (type_key d) (db_of env (type_db d)) (snd (get_db env (type_db d) st))))
       = trace (snd (get_db env (type_db d) st)) @ e2"
    using get_object_info_trace by blast
  obtain e3 where e3:
    "trace (snd (use_mesh_info env (object_hash d)
        (fst (get_object_info env (type_key d) (db_of env (type_db d)) (snd (get_db env (type_db d) st))))
        (snd (get_object_info env (type_key d) (db_of env (type_db d)) (snd (get_db env (type_db d) st))))))
       = trace (snd (get_object_info env (type_key d) (db_of env (type_db d)) (snd (get_db env (type_db d) st)))) @ e3"
    using use_mesh_info_trace by blast
  show ?thesis
    using None e1 e2 e3
    by (simp add: resolve_mesh_def Let_def case_prod_beta emit_def)
qed

lemma resolve_mesh_cong:
  assumes "mesh_resources st' = mesh_resources st" and "tmpnam_calls st' = tmpnam_calls st"
  shows "fst (resolve_mesh env d st') = fst (resolve_mesh env d st)"
proof -
  have "fst (use_mesh_info env h info (snd (get_object_info env k db (snd (get_db env b st'))))) =
        fst (use_mesh_info env h info (snd (get_object_info env k db (snd (get_db env b st)))))"
    for h info k db b
    by (rule use_mesh_info_cong) (simp add: assms)
  then show ?thesis
    using assms(1)
    by (simp add: resolve_mesh_def Let_def case_prod_beta get_object_info_value split: option.splits)
qed


lemma resolve_mesh_push:
  "fst (resolve_mesh env d (push_new_visual st)) = (mesh_resource_of env d st, mesh_loaded env d st)"
  using resolve_mesh_cong [of "push_new_visual st" st env d]
  by (simp add: mesh_resource_of_def mesh_loaded_def)

lemma place_visual_fields [simp]:
  "mesh_resources (snd (place_visual env d m st)) = mesh_resources st"
  "mesh_files (snd (place_visual env d m st)) = mesh_files st"
  "next_visual (snd (place_visual env d m st)) = next_visual st"
  "tmpnam_calls (snd (place_visual env d m st)) = tmpnam_calls st"
  "files (snd (place_visual env d m st)) = files st"
  by (simp_all add: place_visual_def Let_def split: option.splits)

lemma place_visual_flag:
  "fst (place_visual env d m st) = (getTransform env (frame_id d) (stamp d) \<noteq> None)"
  by (auto simp: place_visual_def Let_def split: option.splits)

lemma place_visual_trace:
  "\<exists>evs. trace (snd (place_visual env d m st)) = trace st @ GetTransform (frame_id d) (stamp d) # evs"
  by (simp add: place_visual_def Let_def split: option.splits)

lemma place_visual_visuals:
  assumes "visuals st = vs @ [v]"
  shows "visuals (snd (place_visual env d m st)) =
     vs @ [case getTransform env (frame_id d) (stamp d) of
             None \<Rightarrow> setMessage d m v
           | Some (p, q) \<Rightarrow> setFrameOrientation q (setFramePosition p (setMessage d m v))]"
  using assms
  by (simp add: place_visual_def Let_def update_visual_snoc split: option.splits)

lemma process_object_unfold:
  "process_object env d st =
     (if \<not> mesh_loaded env d st then (False, snd (resolve_mesh env d (push_new_visual st)))
      else place_visual env d (mesh_resource_of env d st) (snd (resolve_mesh env d (push_new_visual st))))"
proof -
  obtain m l st2 where r: "resolve_mesh env d (push_new_visual st) = ((m, l), st2)"
    by (metis surj_pair)
  with resolve_mesh_push [of env d st] have "m = mesh_resource_of env d st" "l = mesh_loaded env d st"
    by simp_all
  with r show ?thesis
    by (simp add: process_object_def Let_def)
qed

lemma process_object_flag:
  "fst (process_object env d st) =
     (mesh_loaded env d st \<and> getTransform env (frame_id d) (stamp d) \<noteq> None)"
  by (simp add: process_object_unfold place_visual_flag)

lemma process_object_next_visual [simp]:
  "next_visual (snd (process_object env d st)) = Suc (next_visual st)"
  by (simp add: process_object_unfold)

lemma process_object_cache:
  "mesh_resources (snd (process_object env d st)) =
     (if mesh_resources st (object_hash d) = None \<and> mesh_resource_of env d st \<noteq> []
      then (mesh_resources st)(object_hash d \<mapsto> mesh_resource_of env d st)
      else mesh_resources st)"
  using resolve_mesh_cache [of env d "push_new_visual st"]
  by (simp add: process_object_unfold resolve_mesh_push)

lemma process_object_trace:
  "\<exists>evs. trace (snd (process_object env d st)) = trace st @ NewVisual (next_visual st) # evs"
proof -
  obtain e1 where e1: "trace (snd (resolve_mesh env d (push_new_visual st))) =
      trace (push_new_visual st) @ e1"
    using resolve_mesh_trace by blast
  obtain e2 where e2: "trace (snd (place_visual env d (mesh_resource_of env d st)
        (snd (resolve_mesh env d (push_new_visual st))))) =
      trace (snd (resolve_mesh env d (push_new_visual st))) @ GetTransform (frame_id d) (stamp d) # e2"
    using place_visual_trace by blast
  show ?thesis
    using e1 e2 by (simp add: process_object_unfold)
qed

lemma process_object_visuals:
  "visuals (snd (process_object env d st)) =
     visuals st @
     [if \<not> mesh_loaded env d st then new_OrkObjectVisual (next_visual st)
      else case getTransform env (frame_id d) (stamp d) of
             None \<Rightarrow> setMessage d (mesh_resource_of env d st) (new_OrkObjectVisual (next_visual st))
           | Some (p, q) \<Rightarrow>
               setFrameOrientation q (setFramePosition p
                 (setMessage d (mesh_resource_of env d st) (new_OrkObjectVisual (next_visual st))))]"
proof (cases "mesh_loaded env d st")
  case False
  then show ?thesis by (simp add: process_object_unfold)
next
  case True
  have "visuals (snd (resolve_mesh env d (push_new_visual st))) =
      visuals st @ [new_OrkObjectVisual (next_visual st)]"
    by simp
  from place_visual_visuals [OF this] True show ?thesis
    by (simp add: process_object_unfold)
qed


subsection \<open>The loop\<close>

lemma process_objects_append:
  "process_objects env (xs @ ys) st =
     (case process_objects env xs st of
        (True, st') \<Rightarrow> process_objects env ys st'
      | (False, st') \<Rightarrow> (False, st'))"
  by (induction xs arbitrary: st) (auto split: prod.splits bool.splits)

lemma process_objects_reach:
  assumes "process_objects env pre st0 = (True, st)"
  shows "process_objects env (pre @ d # rest) st0 =
     (if fst (process_object env d st) then process_objects env rest (snd (process_object env d st))
      else (False, snd (process_object env d st)))"
  using assms
  by (simp add: process_objects_append split: prod.splits bool.splits)

lemma process_object_cache_mono:
  "mesh_resources st h = Some u \<Longrightarrow> mesh_resources (snd (process_object env d st)) h = Some u"
  by (auto simp: process_object_cache)

lemma process_objects_cache_mono:
  "mesh_resources st h = Some u \<Longrightarrow> mesh_resources (snd (process_objects env ds st)) h = Some u"
proof (induction ds arbitrary: st)
  case Nil
  then show ?case by simp
next
  case (Cons d ds)
  have step: "mesh_resources (snd (process_object env d st)) h = Some u"
    using Cons.prems by (rule process_object_cache_mono)
  from Cons.IH [OF step] step show ?case
    by (cases "process_object env d st") (auto split: bool.splits)
qed

lemma later_cache_mono:
  "later st st' \<Longrightarrow> mesh_resources st h = Some u \<Longrightarrow> mesh_resources st' h = Some u"
proof (induction rule: later.induct)
  case (later_refl st)
  then show ?case by simp
next
  case (later_turn st st' env object b st'')
  then have "mesh_resources st' h = Some u" by simp
  then have "mesh_resources (snd (process_object env object st')) h = Some u"
    by (rule process_object_cache_mono)
  with later_turn.hyps(2) show ?case by simp
next
  case (later_clear st st')
  then show ?case by simp
qed

lemma later_trans: "later st2 st3 \<Longrightarrow> later st1 st2 \<Longrightarrow> later st1 st3"
  by (induction rule: later.induct) (auto intro: later.intros)

lemma later_process_object: "later st (snd (process_object env d st))"
  by (rule later_turn [OF later_refl, of env d st "fst (process_object env d st)"]) simp

lemma later_process_objects: "later st (snd (process_objects env ds st))"
proof (induction ds arbitrary: st)
  case Nil
  then show ?case by (simp add: later_refl)
next
  case (Cons d ds)
  show ?case
  proof (cases "fst (process_object env d st)")
    case True
    then have "snd (process_objects env (d # ds) st) =
        snd (process_objects env ds (snd (process_object env d st)))"
      by (cases "process_object env d st") simp
    then show ?thesis
      using later_trans [OF Cons.IH later_process_object] by simp
  next
    case False
    then have "snd (process_objects env (d # ds) st) = snd (process_object env d st)"
      by (cases "process_object env d st") simp
    then show ?thesis by (simp add: later_process_object)
  qed
qed

lemma later_processMessage: "later st (processMessage env ds st)"
  unfolding processMessage_def
  by (rule later_trans [OF later_process_objects later_clear [OF later_refl]])

lemma later_run: "later st (run ms st)"
proof (induction ms arbitrary: st)
  case Nil
  then show ?case by (simp add: later_refl)
next
  case (Cons m ms)
  obtain env ds where m: "m = (env, ds)" by (cases m)
  show ?case
    using later_trans [OF Cons.IH later_processMessage] by (simp add: m)
qed

lemma later_trace: "later st st' \<Longrightarrow> \<exists>evs. trace st' = trace st @ evs"
proof (induction rule: later.induct)
  case (later_refl st)
  then show ?case by simp
next
  case (later_turn st st' env object b st'')
  then obtain e1 where "trace st' = trace st @ e1" by blast
  moreover obtain e2 where "trace (snd (process_object env object st')) = trace st' @ e2"
    using process_object_trace by blast
  ultimately show ?case using later_turn.hyps(2) by simp
next
  case (later_clear st st')
  then show ?case by simp
qed

lemma process_objects_visuals:
  "\<exists>vs. visuals (snd (process_objects env ds st)) = visuals st @ vs \<and>
        length vs \<le> length ds \<and>
        (fst (process_objects env ds st) \<longrightarrow> length vs = length ds) \<and>
        map vis_id vs = [next_visual st ..< next_visual st + length vs] \<and>
        next_visual (snd (process_objects env ds st)) = next_visual st + length vs"
proof (induction ds arbitrary: st)
  case Nil
  then show ?case by simp
next
  case (Cons d ds)
  obtain v where v: "visuals (snd (process_object env d st)) = visuals st @ [v]"
      "vis_id v = next_visual st"
    by (auto simp: process_object_visuals new_OrkObjectVisual_def setMessage_def
        setFramePosition_def setFrameOrientation_def split: option.splits)
  show ?case
  proof (cases "fst (process_object env d st)")
    case False
    then have "process_objects env (d # ds) st = (False, snd (process_object env d st))"
      by (cases "process_object env d st") simp
    with v show ?thesis by simp
  next
    case True
    then have eq: "process_objects env (d # ds) st =
        process_objects env ds (snd (process_object env d st))"
      by (cases "process_object env d st") simp
    from Cons.IH [of "snd (process_object env d st)"] obtain vs where vs:
      "visuals (snd (process_objects env ds (snd (process_object env d st)))) =
         visuals (snd (process_object env d st)) @ vs"
      "length vs \<le> length ds"
      "fst (process_objects env ds (snd (process_object env d st))) \<longrightarrow> length vs = length ds"
      "map vis_id vs = [Suc (next_visual st) ..< Suc (next_visual st) + length vs]"
      "next_visual (snd (process_objects env ds (snd (process_object env d st)))) =
         Suc (next_visual st) + length vs"
      by auto
    have "[next_visual st ..< next_visual st + length (v # vs)] =
        next_visual st # [Suc (next_visual st) ..< Suc (next_visual st) + length vs]"
      by (simp add: upt_conv_Cons del: upt_Suc)
    then have "map vis_id (v # vs) = [next_visual st ..< next_visual st + length (v # vs)]"
      using v(2) vs(4) by simp
    with v vs eq show ?thesis
      by (intro exI [of _ "v # vs"]) simp
  qed
qed


subsection \<open>Marks in the trace\<close>

lemma marks_append [simp]: "marks (xs @ ys) = marks xs @ marks ys"
  by (simp add: marks_def)

lemma marks_simps [simp]:
  "marks [] = []"
  "marks (e # evs) = (if lookup_event e then marks evs else e # marks evs)"
  by (simp_all add: marks_def)

lemma get_db_marks [simp]: "marks (trace (snd (get_db env db st))) = marks (trace st)"
  by (simp add: get_db_def Let_def split: option.splits)

lemma get_object_info_marks [simp]:
  "marks (trace (snd (get_object_info env key db st))) = marks (trace st)"
  by (simp add: get_object_info_def Let_def split: option.splits)

lemma place_visual_marks [simp]:
  "marks (trace (snd (place_visual env d m st))) = marks (trace st)"
  by (simp add: place_visual_def Let_def split: option.splits)

lemma use_mesh_info_attachment:
  assumes "\<not> has_field info ''mesh_uri''" and "has_attachment info ''mesh''"
  shows "use_mesh_info env h info st =
    (''file://'' @ tmpnam env (tmpnam_calls st) @ ''.stl'',
     st\<lparr>tmpnam_calls := Suc (tmpnam_calls st),
        files := insert (tmpnam env (tmpnam_calls st) @ ''.stl'') (files st),
        mesh_files := AList.update h (tmpnam env (tmpnam_calls st) @ ''.stl'') (mesh_files st),
        trace := trace st @ [TmpFileWrite (tmpnam env (tmpnam_calls st) @ ''.stl''),
                             RecordTempFile h (tmpnam env (tmpnam_calls st) @ ''.stl'')]\<rparr>)"
  using assms by (simp add: use_mesh_info_def Let_def)

lemma use_mesh_info_no_attachment:
  assumes "has_field info ''mesh_uri'' \<or> \<not> has_attachment info ''mesh''"
  shows "snd (use_mesh_info env h info st) = st"
  using assms by (auto simp: use_mesh_info_def Let_def)

text \<open>The state after the resolution, when the branch of lines 144 to 154 is taken.\<close>

lemma resolve_mesh_writes:
  assumes "writes_temp_file env d st"
  shows "mesh_resource_of env d st = ''file://'' @ tmpnam env (tmpnam_calls st) @ ''.stl''"
    and "tmpnam_calls (snd (resolve_mesh env d st)) = Suc (tmpnam_calls st)"
    and "files (snd (resolve_mesh env d st)) = insert (tmpnam env (tmpnam_calls st) @ ''.stl'') (files st)"
    and "mesh_files (snd (resolve_mesh env d st)) =
           AList.update (object_hash d) (tmpnam env (tmpnam_calls st) @ ''.stl'') (mesh_files st)"
    and "marks (trace (snd (resolve_mesh env d st))) =
           marks (trace st) @ [TmpFileWrite (tmpnam env (tmpnam_calls st) @ ''.stl''),
                               RecordTempFile (object_hash d) (tmpnam env (tmpnam_calls st) @ ''.stl'')]"
proof -
  from assms obtain info where miss: "mesh_resources st (object_hash d) = None"
    and info: "metadata_of env d = Some info"
    and att: "\<not> has_field info ''mesh_uri''" "has_attachment info ''mesh''"
    by (auto simp: writes_temp_file_def split: option.splits)
  have new: "fetch_info env (type_key d) (db_of env (type_db d)) = Some info"
    using info by (simp add: metadata_of_def)
  note use = use_mesh_info_attachment [OF att]
  show "mesh_resource_of env d st = ''file://'' @ tmpnam env (tmpnam_calls st) @ ''.stl''"
    by (simp add: mesh_resource_of_def resolve_mesh_def miss Let_def case_prod_beta
        get_object_info_value new use)
  show "tmpnam_calls (snd (resolve_mesh env d st)) = Suc (tmpnam_calls st)"
    by (simp add: resolve_mesh_def miss Let_def case_prod_beta get_object_info_value new use emit_def)
  show "files (snd (resolve_mesh env d st)) = insert (tmpnam env (tmpnam_calls st) @ ''.stl'') (files st)"
    by (simp add: resolve_mesh_def miss Let_def case_prod_beta get_object_info_value new use emit_def)
  show "mesh_files (snd (resolve_mesh env d st)) =
           AList.update (object_hash d) (tmpnam env (tmpnam_calls st) @ ''.stl'') (mesh_files st)"
    by (simp add: resolve_mesh_def miss Let_def case_prod_beta get_object_info_value new use emit_def)
  show "marks (trace (snd (resolve_mesh env d st))) =
           marks (trace st) @ [TmpFileWrite (tmpnam env (tmpnam_calls st) @ ''.stl''),
                               RecordTempFile (object_hash d) (tmpnam env (tmpnam_calls st) @ ''.stl'')]"
    by (simp add: resolve_mesh_def miss Let_def case_prod_beta get_object_info_value new use emit_def)
qed

lemma resolve_mesh_writes_not:
  assumes "\<not> writes_temp_file env d st"
  shows "tmpnam_calls (snd (resolve_mesh env d st)) = tmpnam_calls st"
    and "files (snd (resolve_mesh env d st)) = files st"
    and "mesh_files (snd (resolve_mesh env d st)) = mesh_files st"
    and "marks (trace (snd (resolve_mesh env d st))) = marks (trace st)"
proof -
  have use: "snd (use_mesh_info env (object_hash d)
        (case metadata_of env d of None \<Rightarrow> ObjectInfo_default | Some info \<Rightarrow> info) s) = s"
    if "mesh_resources st (object_hash d) = None" for s
    using assms that
    by (cases "metadata_of env d")
       (auto simp: writes_temp_file_def use_mesh_info_no_attachment)
  have new: "fetch_info env (type_key d) (db_of env (type_db d)) = metadata_of env d"
    by (simp add: metadata_of_def)
  show "tmpnam_calls (snd (resolve_mesh env d st)) = tmpnam_calls st"
    by (cases "mesh_resources st (object_hash d)")
       (simp_all add: resolve_mesh_def Let_def case_prod_beta get_object_info_value new use emit_def)
  show "files (snd (resolve_mesh env d st)) = files st"
    by (cases "mesh_resources st (object_hash d)")
       (simp_all add: resolve_mesh_def Let_def case_prod_beta get_object_info_value new use emit_def)
  show "mesh_files (snd (resolve_mesh env d st)) = mesh_files st"
    by (cases "mesh_resources st (object_hash d)")
       (simp_all add: resolve_mesh_def Let_def case_prod_beta get_object_info_value new use emit_def)
  show "marks (trace (snd (resolve_mesh env d st))) = marks (trace st)"
    by (cases "mesh_resources st (object_hash d)")
       (simp_all add: resolve_mesh_def Let_def case_prod_beta get_object_info_value new use emit_def)
qed


lemma writes_temp_file_push [simp]:
  "writes_temp_file env d (push_new_visual st) = writes_temp_file env d st"
  by (simp add: writes_temp_file_def)

lemma process_object_rest:
  "tmpnam_calls (snd (process_object env d st)) = tmpnam_calls (snd (resolve_mesh env d (push_new_visual st)))"
  "files (snd (process_object env d st)) = files (snd (resolve_mesh env d (push_new_visual st)))"
  "mesh_files (snd (process_object env d st)) = mesh_files (snd (resolve_mesh env d (push_new_visual st)))"
  "marks (trace (snd (process_object env d st))) = marks (trace (snd (resolve_mesh env d (push_new_visual st))))"
  by (simp_all add: process_object_unfold)

lemma process_object_writes:
  assumes "writes_temp_file env d st"
  shows "tmpnam_calls (snd (process_object env d st)) = Suc (tmpnam_calls st)"
    and "files (snd (process_object env d st)) = insert (tmpnam env (tmpnam_calls st) @ ''.stl'') (files st)"
    and "mesh_files (snd (process_object env d st)) =
           AList.update (object_hash d) (tmpnam env (tmpnam_calls st) @ ''.stl'') (mesh_files st)"
    and "marks (trace (snd (process_object env d st))) =
           marks (trace st) @ [NewVisual (next_visual st),
                               TmpFileWrite (tmpnam env (tmpnam_calls st) @ ''.stl''),
                               RecordTempFile (object_hash d) (tmpnam env (tmpnam_calls st) @ ''.stl'')]"
    and "mesh_resources (snd (process_object env d st)) =
           (mesh_resources st)(object_hash d \<mapsto> ''file://'' @ tmpnam env (tmpnam_calls st) @ ''.stl'')"
proof -
  have w: "writes_temp_file env d (push_new_visual st)"
    using assms by simp
  show "tmpnam_calls (snd (process_object env d st)) = Suc (tmpnam_calls st)"
    by (simp add: process_object_rest resolve_mesh_writes [OF w])
  show "files (snd (process_object env d st)) = insert (tmpnam env (tmpnam_calls st) @ ''.stl'') (files st)"
    by (simp add: process_object_rest resolve_mesh_writes [OF w])
  show "mesh_files (snd (process_object env d st)) =
           AList.update (object_hash d) (tmpnam env (tmpnam_calls st) @ ''.stl'') (mesh_files st)"
    by (simp add: process_object_rest resolve_mesh_writes [OF w])
  show "marks (trace (snd (process_object env d st))) =
           marks (trace st) @ [NewVisual (next_visual st),
                               TmpFileWrite (tmpnam env (tmpnam_calls st) @ ''.stl''),
                               RecordTempFile (object_hash d) (tmpnam env (tmpnam_calls st) @ ''.stl'')]"
    by (simp add: process_object_rest resolve_mesh_writes [OF w])
  have "mesh_resources st (object_hash d) = None"
    using assms by (simp add: writes_temp_file_def)
  then show "mesh_resources (snd (process_object env d st)) =
           (mesh_resources st)(object_hash d \<mapsto> ''file://'' @ tmpnam env (tmpnam_calls st) @ ''.stl'')"
    by (simp add: process_object_cache resolve_mesh_writes(1) [OF assms])
qed

lemma process_object_writes_not:
  assumes "\<not> writes_temp_file env d st"
  shows "tmpnam_calls (snd (process_object env d st)) = tmpnam_calls st"
    and "files (snd (process_object env d st)) = files st"
    and "mesh_files (snd (process_object env d st)) = mesh_files st"
    and "marks (trace (snd (process_object env d st))) = marks (trace st) @ [NewVisual (next_visual st)]"
proof -
  have w: "\<not> writes_temp_file env d (push_new_visual st)"
    using assms by simp
  show "tmpnam_calls (snd (process_object env d st)) = tmpnam_calls st"
    by (simp add: process_object_rest resolve_mesh_writes_not [OF w])
  show "files (snd (process_object env d st)) = files st"
    by (simp add: process_object_rest resolve_mesh_writes_not [OF w])
  show "mesh_files (snd (process_object env d st)) = mesh_files st"
    by (simp add: process_object_rest resolve_mesh_writes_not [OF w])
  show "marks (trace (snd (process_object env d st))) = marks (trace st) @ [NewVisual (next_visual st)]"
    by (simp add: process_object_rest resolve_mesh_writes_not [OF w])
qed

subsection \<open>Allocation of visuals\<close>

lemma NewVisual_marks: "NewVisual i \<in> set (marks evs) \<longleftrightarrow> NewVisual i \<in> set evs"
  by (auto simp: marks_def)

lemma process_object_NewVisual:
  "NewVisual i \<in> set (trace (snd (process_object env d st))) \<longleftrightarrow>
     NewVisual i \<in> set (trace st) \<or> i = next_visual st"
proof -
  have "NewVisual i \<in> set (marks (trace (snd (process_object env d st)))) \<longleftrightarrow>
      NewVisual i \<in> set (marks (trace st)) \<or> i = next_visual st"
    by (cases "writes_temp_file env d st")
       (auto simp: process_object_writes process_object_writes_not)
  then show ?thesis by (simp add: NewVisual_marks)
qed

lemma process_objects_next_visual:
  "next_visual (snd (process_objects env ds st)) =
     next_visual st + (length (visuals (snd (process_objects env ds st))) - length (visuals st))"
  using process_objects_visuals [of env ds st] by auto

lemma process_objects_next_visual_le:
  "next_visual st \<le> next_visual (snd (process_objects env ds st))"
  by (subst process_objects_next_visual) simp

lemma process_objects_NewVisual:
  "NewVisual i \<in> set (trace (snd (process_objects env ds st))) \<longleftrightarrow>
     NewVisual i \<in> set (trace st) \<or>
     (next_visual st \<le> i \<and> i < next_visual (snd (process_objects env ds st)))"
proof (induction ds arbitrary: st)
  case Nil
  then show ?case by auto
next
  case (Cons d ds)
  show ?case
  proof (cases "fst (process_object env d st)")
    case False
    then have "process_objects env (d # ds) st = (False, snd (process_object env d st))"
      by (cases "process_object env d st") simp
    then show ?thesis by (auto simp: process_object_NewVisual)
  next
    case True
    then have eq: "process_objects env (d # ds) st =
        process_objects env ds (snd (process_object env d st))"
      by (cases "process_object env d st") simp
    have "Suc (next_visual st) \<le> next_visual (snd (process_objects env ds (snd (process_object env d st))))"
      using process_objects_next_visual_le [of "snd (process_object env d st)" env ds] by simp
    then show ?thesis
      unfolding eq Cons.IH [of "snd (process_object env d st)"]
      by (auto simp: process_object_NewVisual)
  qed
qed

lemma allocated_processMessage:
  assumes "allocated st"
  shows "allocated (processMessage env ds st)"
proof -
  have "next_visual st \<le> next_visual (snd (process_objects env ds (clear_visuals st)))"
    using process_objects_next_visual_le [of "clear_visuals st" env ds] by simp
  then show ?thesis
    using assms
    by (auto simp: allocated_def processMessage_def process_objects_NewVisual)
qed

lemma allocated_run: "allocated st \<Longrightarrow> allocated (run ms st)"
  by (induction ms arbitrary: st) (auto simp: allocated_processMessage)

lemma allocated_new: "allocated OrkObjectDisplay_new"
  by (simp add: allocated_def OrkObjectDisplay_new_def)


lemma events_since_append: "trace st' = trace st @ evs \<Longrightarrow> events_since st st' = evs"
  by (simp add: events_since_def)

subsection \<open>The cache key\<close>

lemma object_hash_same_db:
  "type_db a = type_db b \<Longrightarrow> object_hash a = object_hash b \<Longrightarrow> type_key a = type_key b"
  by (simp add: object_hash_def)

lemma object_hash_same_key:
  "type_key a = type_key b \<Longrightarrow> object_hash a = object_hash b \<Longrightarrow> type_db a = type_db b"
  by (simp add: object_hash_def)

lemma object_hash_same_length:
  assumes "length (type_key a) = length (type_key b)" and "object_hash a = object_hash b"
  shows "type_db a = type_db b \<and> type_key a = type_key b"
proof -
  have "length (type_db a) = length (type_db b)"
    using assms(1) arg_cong [OF assms(2), of length] by (simp add: object_hash_def)
  with assms(2) show ?thesis
    by (simp add: object_hash_def)
qed

text \<open>
  C1. The cache key of an object is the concatenation of its database and its key,
  with nothing in between. Two objects with one database, with one key or with keys of
  one length have different cache keys when they differ, but in general two different
  pairs can have one cache key: the object \<open>("{}c", "up")\<close> gets the cache entry of
  \<open>("{}", "cup")\<close>, and is shown with the mesh of the cup, not with its own.
\<close>

theorem object_hash_collision:
  "(type_db (ex_object ''{}'' ''cup'' ''camera''), type_key (ex_object ''{}'' ''cup'' ''camera'')) \<noteq>
   (type_db (ex_object ''{}c'' ''up'' ''camera''), type_key (ex_object ''{}c'' ''up'' ''camera'')) \<and>
   object_hash (ex_object ''{}'' ''cup'' ''camera'') = object_hash (ex_object ''{}c'' ''up'' ''camera'') \<and>
   map message (visuals (processMessage ex_env [ex_object ''{}c'' ''up'' ''camera''] OrkObjectDisplay_new)) =
     [Some (ex_object ''{}c'' ''up'' ''camera'', ''package://meshes/up.stl'')] \<and>
   map message (visuals (processMessage ex_env
       [ex_object ''{}'' ''cup'' ''camera'', ex_object ''{}c'' ''up'' ''camera''] OrkObjectDisplay_new)) =
     [Some (ex_object ''{}'' ''cup'' ''camera'', ''package://meshes/cup.stl''),
      Some (ex_object ''{}c'' ''up'' ''camera'', ''package://meshes/cup.stl'')]"
  by code_simp

text \<open>
  C7. After a call of processMessage, every visual in the set was allocated during that
  call, and none of them during an earlier message.
\<close>

theorem processMessage_only_new_visuals:
  "(let st = run ms OrkObjectDisplay_new; st' = processMessage env objects st
    in \<forall>v \<in> set (visuals st').
         NewVisual (vis_id v) \<in> set (events_since st st') \<and>
         NewVisual (vis_id v) \<notin> set (trace st))"
proof -
  define st where "st = run ms OrkObjectDisplay_new"
  define st' where "st' = processMessage env objects st"
  have alloc: "allocated st"
    unfolding st_def by (rule allocated_run [OF allocated_new])
  obtain evs where evs: "trace st' = trace st @ evs"
    unfolding st'_def using later_trace [OF later_processMessage] by blast
  obtain vs where vs: "visuals st' = vs"
      "map vis_id vs = [next_visual st ..< next_visual st + length vs]"
      "next_visual st' = next_visual st + length vs"
    using process_objects_visuals [of env objects "clear_visuals st"]
    by (auto simp: st'_def processMessage_def)
  have "NewVisual (vis_id v) \<in> set (events_since st st') \<and> NewVisual (vis_id v) \<notin> set (trace st)"
    if "v \<in> set (visuals st')" for v
  proof -
    from that have "vis_id v \<in> set (map vis_id vs)"
      by (simp add: vs(1))
    then have range: "next_visual st \<le> vis_id v" "vis_id v < next_visual st'"
      by (simp_all add: vs(2) vs(3))
    then have "NewVisual (vis_id v) \<in> set (trace st')"
      by (simp add: st'_def processMessage_def process_objects_NewVisual)
    moreover have "NewVisual (vis_id v) \<notin> set (trace st)"
      using alloc range(1) by (auto simp: allocated_def)
    ultimately show ?thesis
      using evs by (simp add: events_since_append [OF evs])
  qed
  then show ?thesis
    by (simp add: Let_def st_def st'_def)
qed

theorem processMessage_only_new_visuals_witness:
  "map vis_id (visuals (processMessage ex_env [ex_object ''{}'' ''can'' ''camera'']
      (run [(ex_env, [ex_object ''{}'' ''cup'' ''camera''])] OrkObjectDisplay_new))) = [1] \<and>
   NewVisual 1 \<in> set (events_since
      (run [(ex_env, [ex_object ''{}'' ''cup'' ''camera''])] OrkObjectDisplay_new)
      (processMessage ex_env [ex_object ''{}'' ''can'' ''camera'']
        (run [(ex_env, [ex_object ''{}'' ''cup'' ''camera''])] OrkObjectDisplay_new))) \<and>
   NewVisual 1 \<notin> set (trace (run [(ex_env, [ex_object ''{}'' ''cup'' ''camera''])] OrkObjectDisplay_new))"
proof -
  let ?st = "run [(ex_env, [ex_object ''{}'' ''cup'' ''camera''])] OrkObjectDisplay_new"
  let ?st' = "processMessage ex_env [ex_object ''{}'' ''can'' ''camera''] ?st"
  have ids: "map vis_id (visuals ?st') = [1]"
    by code_simp
  then obtain v where v: "v \<in> set (visuals ?st')" "vis_id v = 1"
    by (cases "visuals ?st'") auto
  from processMessage_only_new_visuals
    [of "[(ex_env, [ex_object ''{}'' ''cup'' ''camera''])]" ex_env "[ex_object ''{}'' ''can'' ''camera'']"]
  have "\<forall>v \<in> set (visuals ?st').
         NewVisual (vis_id v) \<in> set (events_since ?st ?st') \<and>
         NewVisual (vis_id v) \<notin> set (trace ?st)"
    by (simp add: Let_def)
  with v ids show ?thesis
    by (metis)
qed


subsection \<open>When the loop reaches an object\<close>

lemma reach_length:
  assumes "process_objects env pre (clear_visuals st0) = (True, st)"
  shows "length (visuals st) = length pre"
  using process_objects_visuals [of env pre "clear_visuals st0"] assms by auto

lemma processMessage_reach:
  assumes "process_objects env pre (clear_visuals st0) = (True, st)"
  shows "processMessage env (pre @ d # rest) st0 =
     (if fst (process_object env d st) then snd (process_objects env rest (snd (process_object env d st)))
      else snd (process_object env d st))"
  by (simp add: processMessage_def process_objects_reach [OF assms])

lemma process_objects_keeps_visuals:
  "\<exists>vs. visuals (snd (process_objects env ds st)) = visuals st @ vs"
  using process_objects_visuals [of env ds st] by blast

lemma processMessage_reach_visuals:
  assumes "process_objects env pre (clear_visuals st0) = (True, st)"
  shows "\<exists>vs. visuals (processMessage env (pre @ d # rest) st0) =
     visuals (snd (process_object env d st)) @ vs \<and>
     (\<not> fst (process_object env d st) \<longrightarrow> vs = [])"
proof (cases "fst (process_object env d st)")
  case True
  then show ?thesis
    using process_objects_keeps_visuals [of env rest "snd (process_object env d st)"]
    by (simp add: processMessage_reach [OF assms])
next
  case False
  then show ?thesis
    by (simp add: processMessage_reach [OF assms])
qed

text \<open>
  C10. A turn of the loop first allocates a visual and pushes it, before it resolves
  the mesh or looks up the transform. So the visual of every object the loop reaches is
  in the final set, at the object's place in the message; when the object's mesh cannot
  be loaded or its transform is not found, it stays there as the last one, without
  position and orientation.
\<close>

theorem visual_is_pushed_first:
  assumes "process_objects env pre (clear_visuals st0) = (True, st)"
  shows "(\<exists>evs. events_since st (snd (process_object env d st)) = NewVisual (next_visual st) # evs) \<and>
    (let res = processMessage env (pre @ d # rest) st0
     in length pre < length (visuals res) \<and>
        vis_id (visuals res ! length pre) = next_visual st \<and>
        (\<not> mesh_loaded env d st \<or> getTransform env (frame_id d) (stamp d) = None \<longrightarrow>
           length (visuals res) = Suc (length pre) \<and>
           frame_position (visuals res ! length pre) = None \<and>
           frame_orientation (visuals res ! length pre) = None))"
proof -
  let ?res = "processMessage env (pre @ d # rest) st0"
  let ?v = "if \<not> mesh_loaded env d st then new_OrkObjectVisual (next_visual st)
      else case getTransform env (frame_id d) (stamp d) of
             None \<Rightarrow> setMessage d (mesh_resource_of env d st) (new_OrkObjectVisual (next_visual st))
           | Some (p, q) \<Rightarrow>
               setFrameOrientation q (setFramePosition p
                 (setMessage d (mesh_resource_of env d st) (new_OrkObjectVisual (next_visual st))))"
  have first: "\<exists>evs. events_since st (snd (process_object env d st)) = NewVisual (next_visual st) # evs"
    using process_object_trace [of env d st] by (auto simp: events_since_def)
  have len: "length (visuals st) = length pre"
    by (rule reach_length [OF assms])
  obtain vs where vs: "visuals ?res = visuals st @ ?v # vs"
      "\<not> fst (process_object env d st) \<longrightarrow> vs = []"
    using processMessage_reach_visuals [OF assms, of d rest]
    by (auto simp: process_object_visuals)
  have at: "visuals ?res ! length pre = ?v"
    by (simp add: vs(1) len [symmetric])
  have id: "vis_id ?v = next_visual st"
    by (simp add: new_OrkObjectVisual_def setMessage_def setFramePosition_def
        setFrameOrientation_def split: option.splits)
  have fail: "length (visuals ?res) = Suc (length pre) \<and>
      frame_position ?v = None \<and> frame_orientation ?v = None"
    if "\<not> mesh_loaded env d st \<or> getTransform env (frame_id d) (stamp d) = None"
  proof -
    from that have "\<not> fst (process_object env d st)"
      by (auto simp: process_object_flag)
    with vs have "visuals ?res = visuals st @ [?v]" by simp
    then have "length (visuals ?res) = Suc (length pre)"
      using len by simp
    moreover have "frame_position ?v = None \<and> frame_orientation ?v = None"
      using that by (auto simp: new_OrkObjectVisual_def setMessage_def)
    ultimately show ?thesis by simp
  qed
  have "length pre < length (visuals ?res)"
    by (simp add: vs(1) len [symmetric])
  with first at id fail show ?thesis
    by (simp add: Let_def)
qed


theorem visual_is_pushed_first_witness:
  "fst (process_objects ex_env [ex_object ''{}'' ''cup'' ''camera''] (clear_visuals OrkObjectDisplay_new)) \<and>
   getTransform ex_env ''nowhere'' 0 = None \<and>
   length (visuals (processMessage ex_env
     [ex_object ''{}'' ''cup'' ''camera'', ex_object ''{}'' ''can'' ''nowhere'', ex_object ''{}'' ''box'' ''camera'']
     OrkObjectDisplay_new)) = 2 \<and>
   vis_id (visuals (processMessage ex_env
     [ex_object ''{}'' ''cup'' ''camera'', ex_object ''{}'' ''can'' ''nowhere'', ex_object ''{}'' ''box'' ''camera'']
     OrkObjectDisplay_new) ! 1) = 1 \<and>
   frame_position (visuals (processMessage ex_env
     [ex_object ''{}'' ''cup'' ''camera'', ex_object ''{}'' ''can'' ''nowhere'', ex_object ''{}'' ''box'' ''camera'']
     OrkObjectDisplay_new) ! 1) = None"
proof -
  let ?pre = "[ex_object ''{}'' ''cup'' ''camera'']"
  let ?d = "ex_object ''{}'' ''can'' ''nowhere''"
  let ?st = "snd (process_objects ex_env ?pre (clear_visuals OrkObjectDisplay_new))"
  have f: "fst (process_objects ex_env ?pre (clear_visuals OrkObjectDisplay_new))"
    by code_simp
  then have reach: "process_objects ex_env ?pre (clear_visuals OrkObjectDisplay_new) = (True, ?st)"
    by (simp add: prod_eq_iff)
  have t: "getTransform ex_env (frame_id ?d) (stamp ?d) = None"
    by code_simp
  have n: "next_visual ?st = 1"
    by code_simp
  from visual_is_pushed_first [OF reach, of ?d "[ex_object ''{}'' ''box'' ''camera'']"] t n f
  show ?thesis
    by (simp add: Let_def ex_object_def)
qed

text \<open>
  C2, as the claim states it, fails: the visual of the second detection was pushed
  before its transform was looked up, and stays.
\<close>

theorem second_transform_fails_counterexample:
  "getTransform ex_env (frame_id (ex_object ''{}'' ''cup'' ''camera'')) (stamp (ex_object ''{}'' ''cup'' ''camera'')) \<noteq> None \<and>
   getTransform ex_env (frame_id (ex_object ''{}'' ''can'' ''nowhere'')) (stamp (ex_object ''{}'' ''can'' ''nowhere'')) = None \<and>
   map message (visuals (processMessage ex_env
     [ex_object ''{}'' ''cup'' ''camera'', ex_object ''{}'' ''can'' ''nowhere'', ex_object ''{}'' ''box'' ''camera'']
     OrkObjectDisplay_new)) =
     [Some (ex_object ''{}'' ''cup'' ''camera'', ''package://meshes/cup.stl''),
      Some (ex_object ''{}'' ''can'' ''nowhere'', ''file:///tmp/file.stl'')]"
  by code_simp

text \<open>
  C2, amended. In a batch of three detections with a transform for the first and none
  for the second, the final set never holds a visual for the third detection. It holds
  the visual of the first detection and, unless the mesh of the first detection failed
  to load, the visual of the second one after it. The first then has its message and
  its pose; the second has no pose, and has its message unless its mesh failed to load.
\<close>

theorem second_transform_fails:
  assumes "getTransform env (frame_id d1) (stamp d1) = Some (p, q)"
    and "getTransform env (frame_id d2) (stamp d2) = None"
  shows "visuals (processMessage env [d1, d2, d3] st0) =
    (if \<not> mesh_loaded env d1 (clear_visuals st0) then [new_OrkObjectVisual (next_visual st0)]
     else
       [\<lparr>vis_id = next_visual st0,
         message = Some (d1, mesh_resource_of env d1 (clear_visuals st0)),
         frame_position = Some p, frame_orientation = Some q\<rparr>,
        if \<not> mesh_loaded env d2 (snd (process_object env d1 (clear_visuals st0)))
        then new_OrkObjectVisual (Suc (next_visual st0))
        else
          \<lparr>vis_id = Suc (next_visual st0),
           message = Some (d2, mesh_resource_of env d2 (snd (process_object env d1 (clear_visuals st0)))),
           frame_position = None, frame_orientation = None\<rparr>])"
proof (cases "mesh_loaded env d1 (clear_visuals st0)")
  case False
  then have "\<not> fst (process_object env d1 (clear_visuals st0))"
    by (simp add: process_object_flag)
  then have "processMessage env [d1, d2, d3] st0 = snd (process_object env d1 (clear_visuals st0))"
    by (cases "process_object env d1 (clear_visuals st0)") (simp add: processMessage_def)
  with False show ?thesis
    by (simp add: process_object_visuals)
next
  case True
  let ?s0 = "clear_visuals st0"
  let ?s1 = "snd (process_object env d1 ?s0)"
  have f1: "fst (process_object env d1 ?s0)"
    using True assms(1) by (simp add: process_object_flag)
  have f2: "\<not> fst (process_object env d2 ?s1)"
    using assms(2) by (simp add: process_object_flag)
  have "processMessage env [d1, d2, d3] st0 = snd (process_object env d2 ?s1)"
    using f1 f2
    by (cases "process_object env d1 ?s0"; cases "process_object env d2 ?s1")
       (simp add: processMessage_def)
  then show ?thesis
    using True assms
    by (simp add: process_object_visuals new_OrkObjectVisual_def setMessage_def
        setFramePosition_def setFrameOrientation_def)
qed

theorem second_transform_fails_witness:
  "getTransform ex_env ''camera'' 0 = Some (Vector3 1 2 3, Quaternion 1 0 0 0) \<and>
   getTransform ex_env ''nowhere'' 0 = None \<and>
   visuals (processMessage ex_env
     [ex_object ''{}'' ''cup'' ''camera'', ex_object ''{}'' ''can'' ''nowhere'', ex_object ''{}'' ''box'' ''camera'']
     OrkObjectDisplay_new) =
    [\<lparr>vis_id = 0,
      message = Some (ex_object ''{}'' ''cup'' ''camera'', ''package://meshes/cup.stl''),
      frame_position = Some (Vector3 1 2 3), frame_orientation = Some (Quaternion 1 0 0 0)\<rparr>,
     \<lparr>vis_id = 1,
      message = Some (ex_object ''{}'' ''can'' ''nowhere'', ''file:///tmp/file.stl''),
      frame_position = None, frame_orientation = None\<rparr>]"
proof -
  let ?d1 = "ex_object ''{}'' ''cup'' ''camera''"
  let ?d2 = "ex_object ''{}'' ''can'' ''nowhere''"
  let ?s0 = "clear_visuals OrkObjectDisplay_new"
  have l1: "mesh_loaded ex_env ?d1 ?s0"
    by code_simp
  have l2: "mesh_loaded ex_env ?d2 (snd (process_object ex_env ?d1 ?s0))"
    by code_simp
  have t1: "getTransform ex_env (frame_id ?d1) (stamp ?d1) = Some (Vector3 1 2 3, Quaternion 1 0 0 0)"
    by code_simp
  have t2: "getTransform ex_env (frame_id ?d2) (stamp ?d2) = None"
    by code_simp
  have t1': "getTransform ex_env ''camera'' 0 = Some (Vector3 1 2 3, Quaternion 1 0 0 0)"
    by code_simp
  have t2': "getTransform ex_env ''nowhere'' 0 = None"
    by code_simp
  have m1: "mesh_resource_of ex_env ?d1 ?s0 = ''package://meshes/cup.stl''"
    by code_simp
  have m2: "mesh_resource_of ex_env ?d2 (snd (process_object ex_env ?d1 ?s0)) = ''file:///tmp/file.stl''"
    by code_simp
  have n: "next_visual OrkObjectDisplay_new = 0"
    by code_simp
  from second_transform_fails [OF t1 t2, of "ex_object ''{}'' ''box'' ''camera''" OrkObjectDisplay_new]
  have "visuals (processMessage ex_env [?d1, ?d2, ex_object ''{}'' ''box'' ''camera''] OrkObjectDisplay_new) =
    [\<lparr>vis_id = 0, message = Some (?d1, ''package://meshes/cup.stl''),
      frame_position = Some (Vector3 1 2 3), frame_orientation = Some (Quaternion 1 0 0 0)\<rparr>,
     \<lparr>vis_id = 1, message = Some (?d2, ''file:///tmp/file.stl''),
      frame_position = None, frame_orientation = None\<rparr>]"
    by (simp only: l1 l2 m1 m2 n not_True_eq_False if_False One_nat_def)
  with t1' t2' show ?thesis
    by (intro conjI)
qed


text \<open>
  C3, as the claim states it, fails: the URI is put into the cache on line 157, before
  the loader is tried on line 158, and nothing takes it out again.
\<close>

theorem failed_mesh_not_cached_counterexample:
  "\<not> loadMeshFromResource ex_env ''package://meshes/broken.stl'' \<and>
   mesh_resource_of ex_env (ex_object ''{}'' ''bad'' ''camera'') (clear_visuals OrkObjectDisplay_new) =
     ''package://meshes/broken.stl'' \<and>
   mesh_resources (processMessage ex_env [ex_object ''{}'' ''bad'' ''camera''] OrkObjectDisplay_new)
     (object_hash (ex_object ''{}'' ''bad'' ''camera'')) = Some ''package://meshes/broken.stl''"
  by code_simp

text \<open>
  C3, amended. When the loop reaches an object whose mesh resolution produces a URI
  that the loader fails to load, the object's hash was not in the cache before, and
  after the call it is, with that URI.
\<close>

theorem failed_mesh_is_cached:
  assumes "process_objects env pre (clear_visuals st0) = (True, st)"
    and "\<not> mesh_loaded env d st"
  shows "mesh_resources st (object_hash d) = None \<and>
    \<not> loadMeshFromResource env (mesh_resource_of env d st) \<and>
    mesh_resources (processMessage env (pre @ d # rest) st0) (object_hash d) =
      Some (mesh_resource_of env d st)"
proof -
  from resolve_mesh_not_loaded [of env d st] assms(2)
  have miss: "mesh_resources st (object_hash d) = None"
    and uri: "mesh_resource_of env d st \<noteq> []"
    and load: "\<not> loadMeshFromResource env (mesh_resource_of env d st)"
    by (simp_all add: mesh_loaded_def mesh_resource_of_def)
  have "\<not> fst (process_object env d st)"
    using assms(2) by (simp add: process_object_flag)
  then have "processMessage env (pre @ d # rest) st0 = snd (process_object env d st)"
    by (simp add: processMessage_reach [OF assms(1)])
  then show ?thesis
    using miss uri load by (simp add: process_object_cache)
qed

theorem failed_mesh_is_cached_witness:
  "\<not> mesh_loaded ex_env (ex_object ''{}'' ''bad'' ''camera'')
      (snd (process_objects ex_env [ex_object ''{}'' ''cup'' ''camera''] (clear_visuals OrkObjectDisplay_new))) \<and>
   mesh_resources (processMessage ex_env
      [ex_object ''{}'' ''cup'' ''camera'', ex_object ''{}'' ''bad'' ''camera'', ex_object ''{}'' ''box'' ''camera'']
      OrkObjectDisplay_new) ''{}bad'' = Some ''package://meshes/broken.stl''"
proof -
  let ?pre = "[ex_object ''{}'' ''cup'' ''camera'']"
  let ?d = "ex_object ''{}'' ''bad'' ''camera''"
  let ?st = "snd (process_objects ex_env ?pre (clear_visuals OrkObjectDisplay_new))"
  have "fst (process_objects ex_env ?pre (clear_visuals OrkObjectDisplay_new))"
    by code_simp
  then have reach: "process_objects ex_env ?pre (clear_visuals OrkObjectDisplay_new) = (True, ?st)"
    by (simp add: prod_eq_iff)
  have l: "\<not> mesh_loaded ex_env ?d ?st"
    by code_simp
  have m: "mesh_resource_of ex_env ?d ?st = ''package://meshes/broken.stl''"
    by code_simp
  have h: "object_hash ?d = ''{}bad''"
    by code_simp
  from failed_mesh_is_cached [OF reach l, of "[ex_object ''{}'' ''box'' ''camera'']"] l m h
  show ?thesis
    by simp
qed

text \<open>
  C4, as the claim states it, fails: line 162 is a \<open>return\<close> from processMessage, so
  the objects after the one whose mesh failed to load are not processed.
\<close>

theorem mesh_failure_skips_one_counterexample:
  "\<not> mesh_loaded ex_env (ex_object ''{}'' ''bad'' ''camera'') (clear_visuals OrkObjectDisplay_new) \<and>
   length (visuals (processMessage ex_env [ex_object ''{}'' ''cup'' ''camera''] OrkObjectDisplay_new)) = 1 \<and>
   length (visuals (processMessage ex_env
      [ex_object ''{}'' ''bad'' ''camera'', ex_object ''{}'' ''cup'' ''camera''] OrkObjectDisplay_new)) = 1 \<and>
   trace (processMessage ex_env
      [ex_object ''{}'' ''bad'' ''camera'', ex_object ''{}'' ''cup'' ''camera''] OrkObjectDisplay_new) =
     [NewVisual 0, GenerateDb ''{}'', ObjectInfoQuery ''bad'', LoadMesh ''package://meshes/broken.stl'',
      RosDebug ''Could not load [package://meshes/broken.stl]'']"
  by code_simp

text \<open>
  C4, amended. A mesh that fails to load ends the whole call: when the loop reaches an
  object whose mesh cannot be loaded, processMessage returns in the state that the turn
  for that object leaves, whatever objects follow in the message. The final set holds
  the visuals of the objects up to and including that one, and none for a later one.
\<close>

theorem mesh_failure_ends_batch:
  assumes "process_objects env pre (clear_visuals st0) = (True, st)"
    and "\<not> mesh_loaded env d st"
  shows "processMessage env (pre @ d # rest) st0 = snd (process_object env d st) \<and>
    processMessage env (pre @ d # rest) st0 = processMessage env (pre @ [d]) st0 \<and>
    length (visuals (processMessage env (pre @ d # rest) st0)) = Suc (length pre)"
proof -
  have stop: "\<not> fst (process_object env d st)"
    using assms(2) by (simp add: process_object_flag)
  then have res: "processMessage env (pre @ d # rest') st0 = snd (process_object env d st)" for rest'
    by (simp add: processMessage_reach [OF assms(1)])
  have "length (visuals (snd (process_object env d st))) = Suc (length pre)"
    by (simp add: process_object_visuals reach_length [OF assms(1)])
  with res [of rest] res [of "[]"] show ?thesis
    by simp
qed

theorem mesh_failure_ends_batch_witness:
  "\<not> mesh_loaded ex_env (ex_object ''{}'' ''bad'' ''camera'')
      (snd (process_objects ex_env [ex_object ''{}'' ''cup'' ''camera''] (clear_visuals OrkObjectDisplay_new))) \<and>
   length (visuals (processMessage ex_env
      [ex_object ''{}'' ''cup'' ''camera'', ex_object ''{}'' ''bad'' ''camera'', ex_object ''{}'' ''box'' ''camera'']
      OrkObjectDisplay_new)) = 2"
proof -
  let ?pre = "[ex_object ''{}'' ''cup'' ''camera'']"
  let ?d = "ex_object ''{}'' ''bad'' ''camera''"
  let ?st = "snd (process_objects ex_env ?pre (clear_visuals OrkObjectDisplay_new))"
  have "fst (process_objects ex_env ?pre (clear_visuals OrkObjectDisplay_new))"
    by code_simp
  then have reach: "process_objects ex_env ?pre (clear_visuals OrkObjectDisplay_new) = (True, ?st)"
    by (simp add: prod_eq_iff)
  have l: "\<not> mesh_loaded ex_env ?d ?st"
    by code_simp
  from mesh_failure_ends_batch
    [OF reach l, of "[ex_object ''{}'' ''box'' ''camera'']", THEN conjunct2, THEN conjunct2] l
  show ?thesis
    by simp
qed


subsection \<open>A turn of the loop on a cached object\<close>

lemma place_visual_backend:
  "filter backend_or_disk (events_since st (snd (place_visual env d m st))) = []"
  by (simp add: place_visual_def Let_def events_since_def split: option.splits)

lemma place_visual_temp:
  "filter is_TmpFileWrite (events_since st (snd (place_visual env d m st))) = []"
  by (simp add: place_visual_def Let_def events_since_def split: option.splits)

lemma process_object_hit:
  assumes "mesh_resources st (object_hash d) = Some u"
  shows "process_object env d st = place_visual env d u (push_new_visual st)"
proof -
  have "resolve_mesh env d (push_new_visual st) = ((u, True), push_new_visual st)"
    using assms by (simp add: resolve_mesh_hit)
  then show ?thesis
    by (simp add: process_object_def Let_def)
qed

lemma process_object_hit_events:
  assumes "mesh_resources st (object_hash d) = Some u"
  shows "filter backend_or_disk (events_since st (snd (process_object env d st))) = []"
    and "filter is_TmpFileWrite (events_since st (snd (process_object env d st))) = []"
proof -
  obtain evs where evs: "trace (snd (place_visual env d u (push_new_visual st))) =
      trace (push_new_visual st) @ evs"
    using place_visual_trace by blast
  then have e: "events_since (push_new_visual st) (snd (place_visual env d u (push_new_visual st))) = evs"
    by (rule events_since_append)
  have since: "events_since st (snd (process_object env d st)) = NewVisual (next_visual st) # evs"
    using evs by (simp add: process_object_hit [OF assms] events_since_def)
  show "filter backend_or_disk (events_since st (snd (process_object env d st))) = []"
    using place_visual_backend [of "push_new_visual st" env d u] by (simp add: since e)
  show "filter is_TmpFileWrite (events_since st (snd (process_object env d st))) = []"
    using place_visual_temp [of "push_new_visual st" env d u] by (simp add: since e)
qed

lemma process_object_caches:
  assumes "mesh_resource_of env d st \<noteq> []"
  shows "mesh_resources (snd (process_object env d st)) (object_hash d) = Some (mesh_resource_of env d st)"
proof (cases "mesh_resources st (object_hash d)")
  case None
  with assms show ?thesis by (simp add: process_object_cache)
next
  case (Some u)
  then have "mesh_resource_of env d st = u"
    by (simp add: mesh_resource_of_def resolve_mesh_hit)
  with Some show ?thesis by (simp add: process_object_cache)
qed

text \<open>
  C6. Once the resolution of an object has produced a mesh resource, every later
  resolution of an object with the same cache key, in the same message or in a later
  one, is answered from the cache: it returns that resource and changes nothing, and
  the whole turn of the loop for that object makes no backend call and touches no file.
\<close>

theorem resolved_key_is_cache_hit:
  assumes "mesh_resource_of env d st \<noteq> []"
    and "later (snd (process_object env d st)) st2"
    and "object_hash d' = object_hash d"
  shows "resolve_mesh env' d' st2 = ((mesh_resource_of env d st, True), st2) \<and>
    filter backend_or_disk (events_since st2 (snd (process_object env' d' st2))) = []"
proof -
  have "mesh_resources (snd (process_object env d st)) (object_hash d') = Some (mesh_resource_of env d st)"
    using process_object_caches [OF assms(1)] assms(3) by simp
  with assms(2) have hit: "mesh_resources st2 (object_hash d') = Some (mesh_resource_of env d st)"
    by (rule later_cache_mono)
  show ?thesis
    using resolve_mesh_hit [OF hit] process_object_hit_events(1) [OF hit] by simp
qed

theorem resolved_key_is_cache_hit_witness:
  "mesh_resource_of ex_env (ex_object ''{}'' ''cup'' ''camera'') OrkObjectDisplay_new \<noteq> [] \<and>
   resolve_mesh ex_env (ex_object ''{}'' ''cup'' ''nowhere'')
     (run [(ex_env, [ex_object ''{}'' ''box'' ''camera''])]
       (snd (process_object ex_env (ex_object ''{}'' ''cup'' ''camera'') OrkObjectDisplay_new))) =
     ((''package://meshes/cup.stl'', True),
      run [(ex_env, [ex_object ''{}'' ''box'' ''camera''])]
       (snd (process_object ex_env (ex_object ''{}'' ''cup'' ''camera'') OrkObjectDisplay_new)))"
proof -
  let ?d = "ex_object ''{}'' ''cup'' ''camera''"
  let ?d' = "ex_object ''{}'' ''cup'' ''nowhere''"
  let ?st1 = "snd (process_object ex_env ?d OrkObjectDisplay_new)"
  let ?st2 = "run [(ex_env, [ex_object ''{}'' ''box'' ''camera''])] ?st1"
  have m: "mesh_resource_of ex_env ?d OrkObjectDisplay_new = ''package://meshes/cup.stl''"
    by code_simp
  then have ne: "mesh_resource_of ex_env ?d OrkObjectDisplay_new \<noteq> []"
    by simp
  have l: "later ?st1 ?st2"
    by (rule later_run)
  have h: "object_hash ?d' = object_hash ?d"
    by code_simp
  from resolved_key_is_cache_hit [OF ne l h, of ex_env, THEN conjunct1] ne m
  show ?thesis
    by simp
qed


subsection \<open>Temporary files\<close>

lemma marks_TmpFileWrite: "filter is_TmpFileWrite (marks evs) = filter is_TmpFileWrite evs"
proof (induction evs)
  case Nil
  then show ?case by simp
next
  case (Cons e evs)
  then show ?case by (cases e) simp_all
qed

lemma process_object_mesh_files_other:
  "h \<noteq> object_hash d \<Longrightarrow>
   map_of (mesh_files (snd (process_object env d st))) h = map_of (mesh_files st) h"
  by (cases "writes_temp_file env d st")
     (simp_all add: process_object_writes process_object_writes_not update_conv')

lemma process_object_mesh_files_cached:
  assumes "mesh_resources st h = Some u"
  shows "map_of (mesh_files (snd (process_object env d st))) h = map_of (mesh_files st) h"
proof (cases "h = object_hash d")
  case True
  with assms have "\<not> writes_temp_file env d st"
    by (simp add: writes_temp_file_def)
  then show ?thesis by (simp add: process_object_writes_not)
next
  case False
  then show ?thesis by (rule process_object_mesh_files_other)
qed

lemma later_mesh_files:
  "later st st' \<Longrightarrow> mesh_resources st h = Some u \<Longrightarrow>
   map_of (mesh_files st') h = map_of (mesh_files st) h"
proof (induction rule: later.induct)
  case (later_refl st)
  then show ?case by simp
next
  case (later_turn st st' env object b st'')
  then have "mesh_resources st' h = Some u"
    using later_cache_mono by blast
  then have "map_of (mesh_files (snd (process_object env object st'))) h = map_of (mesh_files st') h"
    by (rule process_object_mesh_files_cached)
  with later_turn show ?case by simp
next
  case (later_clear st st')
  then show ?case by simp
qed

text \<open>
  C8. When the loop reaches an object whose hash is not in the cache and whose metadata
  has the attachment \<open>mesh\<close> and no field \<open>mesh_uri\<close>, the turn for it writes
  exactly one temporary file, records the file's name in \<open>mesh_files_\<close> under the
  object's hash and caches the URI \<open>file://\<close> followed by that name. From then on
  every resolution of an object with that hash returns the cached URI and changes
  nothing, its turn writes no temporary file, and the recorded name stays.
\<close>

theorem attachment_written_once:
  assumes "mesh_resources st (object_hash d) = None"
    and "metadata_of env d = Some info"
    and "\<not> has_field info ''mesh_uri''"
    and "has_attachment info ''mesh''"
  shows "(let file_name = tmpnam env (tmpnam_calls st) @ ''.stl'';
              st1 = snd (process_object env d st)
          in filter is_TmpFileWrite (events_since st st1) = [TmpFileWrite file_name] \<and>
             files st1 = insert file_name (files st) \<and>
             map_of (mesh_files st1) (object_hash d) = Some file_name \<and>
             mesh_resources st1 (object_hash d) = Some (''file://'' @ file_name) \<and>
             (\<forall>st2 env' d'. later st1 st2 \<and> object_hash d' = object_hash d \<longrightarrow>
                resolve_mesh env' d' st2 = ((''file://'' @ file_name, True), st2) \<and>
                filter is_TmpFileWrite (events_since st2 (snd (process_object env' d' st2))) = [] \<and>
                map_of (mesh_files st2) (object_hash d) = Some file_name))"
proof -
  define file_name where "file_name = tmpnam env (tmpnam_calls st) @ ''.stl''"
  define st1 where "st1 = snd (process_object env d st)"
  have w: "writes_temp_file env d st"
    using assms by (simp add: writes_temp_file_def)
  note eff = process_object_writes [OF w, folded file_name_def st1_def]
  obtain evs where evs: "trace st1 = trace st @ evs"
    unfolding st1_def using process_object_trace by blast
  then have "marks evs = [NewVisual (next_visual st), TmpFileWrite file_name, RecordTempFile (object_hash d) file_name]"
    using eff(4) by simp
  then have "filter is_TmpFileWrite (marks evs) = [TmpFileWrite file_name]"
    by simp
  then have one: "filter is_TmpFileWrite (events_since st st1) = [TmpFileWrite file_name]"
    by (simp add: marks_TmpFileWrite events_since_append [OF evs])
  have reg: "map_of (mesh_files st1) (object_hash d) = Some file_name"
    by (simp add: eff(3) update_conv')
  have cache: "mesh_resources st1 (object_hash d) = Some (''file://'' @ file_name)"
    by (simp add: eff(5))
  have after: "resolve_mesh env' d' st2 = ((''file://'' @ file_name, True), st2) \<and>
      filter is_TmpFileWrite (events_since st2 (snd (process_object env' d' st2))) = [] \<and>
      map_of (mesh_files st2) (object_hash d) = Some file_name"
    if "later st1 st2" and "object_hash d' = object_hash d" for st2 env' d'
  proof -
    have hit: "mesh_resources st2 (object_hash d') = Some (''file://'' @ file_name)"
      using later_cache_mono [OF that(1) cache] that(2) by simp
    have "map_of (mesh_files st2) (object_hash d) = Some file_name"
      using later_mesh_files [OF that(1) cache] reg by simp
    then show ?thesis
      using resolve_mesh_hit [OF hit] process_object_hit_events(2) [OF hit] by simp
  qed
  show ?thesis
    using one eff(2) reg cache after
    by (simp add: Let_def file_name_def [symmetric] st1_def [symmetric])
qed

theorem attachment_written_once_witness:
  "filter is_TmpFileWrite (events_since OrkObjectDisplay_new
      (snd (process_object ex_env (ex_object ''{}'' ''can'' ''camera'') OrkObjectDisplay_new))) =
     [TmpFileWrite ''/tmp/file.stl''] \<and>
   map_of (mesh_files (snd (process_object ex_env (ex_object ''{}'' ''can'' ''camera'') OrkObjectDisplay_new)))
     ''{}can'' = Some ''/tmp/file.stl'' \<and>
   mesh_resources (snd (process_object ex_env (ex_object ''{}'' ''can'' ''camera'') OrkObjectDisplay_new))
     ''{}can'' = Some ''file:///tmp/file.stl'' \<and>
   filter is_TmpFileWrite (events_since
      (run [(ex_env, [ex_object ''{}'' ''cup'' ''camera''])]
        (snd (process_object ex_env (ex_object ''{}'' ''can'' ''camera'') OrkObjectDisplay_new)))
      (snd (process_object ex_env (ex_object ''{}'' ''can'' ''nowhere'')
        (run [(ex_env, [ex_object ''{}'' ''cup'' ''camera''])]
          (snd (process_object ex_env (ex_object ''{}'' ''can'' ''camera'') OrkObjectDisplay_new)))))) = []"
proof -
  let ?d = "ex_object ''{}'' ''can'' ''camera''"
  let ?d' = "ex_object ''{}'' ''can'' ''nowhere''"
  let ?info = "\<lparr>info_fields = Map.empty, info_attachments = [''mesh'' \<mapsto> ''solid can'']\<rparr>"
  let ?st1 = "snd (process_object ex_env ?d OrkObjectDisplay_new)"
  let ?st2 = "run [(ex_env, [ex_object ''{}'' ''cup'' ''camera''])] ?st1"
  have miss: "mesh_resources OrkObjectDisplay_new (object_hash ?d) = None"
    by (simp add: OrkObjectDisplay_new_def)
  have meta: "metadata_of ex_env ?d = Some ?info"
    by (simp add: metadata_of_def db_of_def get_db_def ex_env_def ex_info_def
        ex_object_def)
  have nf: "\<not> has_field ?info ''mesh_uri''"
    by (simp add: has_field_def)
  have att: "has_attachment ?info ''mesh''"
    by (simp add: has_attachment_def)
  have fname: "tmpnam ex_env (tmpnam_calls OrkObjectDisplay_new) @ ''.stl'' = ''/tmp/file.stl''"
    by code_simp
  have h: "object_hash ?d = ''{}can''" "object_hash ?d' = object_hash ?d"
    by code_simp+
  have l: "later ?st1 ?st2"
    by (rule later_run)
  note inst = attachment_written_once [OF miss meta nf att, unfolded Let_def]
  have a: "filter is_TmpFileWrite (events_since OrkObjectDisplay_new ?st1) = [TmpFileWrite ''/tmp/file.stl'']"
    using inst [THEN conjunct1] by (simp only: fname)
  have b: "map_of (mesh_files ?st1) ''{}can'' = Some ''/tmp/file.stl''"
    using inst [THEN conjunct2, THEN conjunct2, THEN conjunct1] by (simp only: fname h(1))
  have c: "mesh_resources ?st1 ''{}can'' = Some (''file://'' @ ''/tmp/file.stl'')"
    using inst [THEN conjunct2, THEN conjunct2, THEN conjunct2, THEN conjunct1]
    by (simp only: fname h(1))
  have lh: "later ?st1 ?st2 \<and> object_hash ?d' = object_hash ?d"
    using l h(2) by (rule conjI)
  have e: "filter is_TmpFileWrite (events_since ?st2 (snd (process_object ex_env ?d' ?st2))) = []"
    by (rule inst [THEN conjunct2, THEN conjunct2, THEN conjunct2, THEN conjunct2, rule_format,
          OF lh, THEN conjunct2, THEN conjunct1])
  from c have c': "mesh_resources ?st1 ''{}can'' = Some ''file:///tmp/file.stl''"
    by simp
  show ?thesis
    using a b c' e by (intro conjI)
qed


subsection \<open>Failed resolutions\<close>

lemma mesh_resource_of_failed:
  assumes "mesh_resources st (object_hash d) = None" and "metadata_of env d = None"
  shows "mesh_resource_of env d st = []"
proof -
  have "fetch_info env (type_key d) (db_of env (type_db d)) = None"
    using assms(2) by (simp add: metadata_of_def)
  then show ?thesis
    using assms(1)
    by (simp add: mesh_resource_of_def resolve_mesh_def Let_def case_prod_beta get_object_info_value)
qed

lemma process_object_cache_none:
  assumes "mesh_resources st h = None"
    and "object_hash d = h \<longrightarrow> metadata_of env d = None"
  shows "mesh_resources (snd (process_object env d st)) h = None"
proof (cases "object_hash d = h")
  case True
  with assms have "mesh_resource_of env d st = []"
    by (simp add: mesh_resource_of_failed)
  with assms(1) show ?thesis by (simp add: process_object_cache)
next
  case False
  with assms(1) show ?thesis by (simp add: process_object_cache)
qed

lemma process_objects_cache_none:
  assumes "mesh_resources st h = None"
    and "\<forall>d \<in> set ds. object_hash d = h \<longrightarrow> metadata_of env d = None"
  shows "mesh_resources (snd (process_objects env ds st)) h = None"
  using assms
proof (induction ds arbitrary: st)
  case Nil
  then show ?case by simp
next
  case (Cons d ds)
  have step: "mesh_resources (snd (process_object env d st)) h = None"
    using Cons.prems by (simp add: process_object_cache_none)
  have "mesh_resources (snd (process_objects env ds (snd (process_object env d st)))) h = None"
    using Cons.prems(2) by (intro Cons.IH [OF step]) simp
  with step show ?case
    by (cases "process_object env d st") (auto split: bool.splits)
qed

lemma process_objects_cache_other:
  assumes "\<forall>d \<in> set ds. object_hash d \<noteq> h"
  shows "mesh_resources (snd (process_objects env ds st)) h = mesh_resources st h"
  using assms
proof (induction ds arbitrary: st)
  case Nil
  then show ?case by simp
next
  case (Cons d ds)
  have step: "mesh_resources (snd (process_object env d st)) h = mesh_resources st h"
    using Cons.prems by (auto simp: process_object_cache)
  have "mesh_resources (snd (process_objects env ds (snd (process_object env d st)))) h =
      mesh_resources (snd (process_object env d st)) h"
    using Cons.prems by (intro Cons.IH) simp
  with step show ?case
    by (cases "process_object env d st") (auto split: bool.splits)
qed

lemma resolve_mesh_miss_query:
  assumes "mesh_resources st (object_hash d) = None"
  shows "\<exists>e1 e2. trace (snd (resolve_mesh env d st)) = trace st @ e1 @ ObjectInfoQuery (type_key d) # e2"
proof -
  let ?s1 = "snd (get_db env (type_db d) st)"
  let ?s2 = "snd (get_object_info env (type_key d) (db_of env (type_db d)) ?s1)"
  let ?info = "fst (get_object_info env (type_key d) (db_of env (type_db d)) ?s1)"
  let ?s3 = "snd (use_mesh_info env (object_hash d) ?info ?s2)"
  obtain e1 where e1: "trace ?s1 = trace st @ e1"
    using get_db_trace by blast
  obtain e2 where e2: "trace ?s2 = trace ?s1 @ ObjectInfoQuery (type_key d) # e2"
    using get_object_info_trace by blast
  obtain e3 where e3: "trace ?s3 = trace ?s2 @ e3"
    using use_mesh_info_trace by blast
  have "\<exists>e4. trace (snd (resolve_mesh env d st)) = trace ?s3 @ e4"
    using assms by (simp add: resolve_mesh_def Let_def case_prod_beta emit_def)
  then obtain e4 where "trace (snd (resolve_mesh env d st)) = trace ?s3 @ e4"
    by blast
  then have "trace (snd (resolve_mesh env d st)) =
      trace st @ e1 @ ObjectInfoQuery (type_key d) # (e2 @ e3 @ e4)"
    by (simp add: e1 e2 e3)
  then show ?thesis by blast
qed

lemma process_object_miss_query:
  assumes "mesh_resources st (object_hash d) = None"
  shows "ObjectInfoQuery (type_key d) \<in> set (events_since st (snd (process_object env d st)))"
proof -
  have "mesh_resources (push_new_visual st) (object_hash d) = None"
    using assms by simp
  from resolve_mesh_miss_query [OF this] obtain e1 e2 where
    r: "trace (snd (resolve_mesh env d (push_new_visual st))) =
      trace (push_new_visual st) @ e1 @ ObjectInfoQuery (type_key d) # e2"
    by blast
  obtain e3 where "trace (snd (process_object env d st)) =
      trace (snd (resolve_mesh env d (push_new_visual st))) @ e3"
    using place_visual_trace [of env d "mesh_resource_of env d st" "snd (resolve_mesh env d (push_new_visual st))"]
    by (cases "mesh_loaded env d st") (auto simp: process_object_unfold)
  with r have "trace (snd (process_object env d st)) =
      trace st @ (NewVisual (next_visual st) # e1 @ ObjectInfoQuery (type_key d) # e2 @ e3)"
    by simp
  from events_since_append [OF this] show ?thesis
    by simp
qed

text \<open>
  A resolution that fails writes nothing into the cache. If no object with the cache
  key of \<open>k\<close> has its metadata retrieved while a message is processed (the plugin
  fails to load, or the object's information cannot be retrieved), the cache key is
  absent after the message as it was before; and when the loop of the next message
  reaches \<open>k\<close>, as the first object with that cache key, the cache key is still absent
  and the turn for \<open>k\<close> asks the backend for the object's information again.
\<close>

lemma failed_resolution_leaves_cache_key_absent:
  assumes "mesh_resources st0 (object_hash k) = None"
    and "\<forall>d \<in> set objects. object_hash d = object_hash k \<longrightarrow> metadata_of env d = None"
    and "process_objects env' pre (clear_visuals (processMessage env objects st0)) = (True, st)"
    and "\<forall>d \<in> set pre. object_hash d \<noteq> object_hash k"
  shows "mesh_resources (processMessage env objects st0) (object_hash k) = None \<and>
    mesh_resources st (object_hash k) = None \<and>
    ObjectInfoQuery (type_key k) \<in> set (events_since st (snd (process_object env' k st)))"
proof -
  have after: "mesh_resources (processMessage env objects st0) (object_hash k) = None"
    unfolding processMessage_def
    using assms(1,2) by (intro process_objects_cache_none) simp_all
  have "mesh_resources (snd (process_objects env' pre (clear_visuals (processMessage env objects st0))))
      (object_hash k) = mesh_resources (clear_visuals (processMessage env objects st0)) (object_hash k)"
    using assms(4) by (rule process_objects_cache_other)
  then have still: "mesh_resources st (object_hash k) = None"
    using after by (simp add: assms(3))
  from after still process_object_miss_query [OF still] show ?thesis
    by simp
qed

text \<open>
  C5. No failure is ever written into the cache, but the cache is keyed by the
  concatenation of database and key (see C1), and so the pair of a failed resolution
  can be in the cache after the message all the same. In one message the resolution of
  \<open>("{}cu", "p")\<close> fails, the object's information cannot be retrieved, and then
  \<open>("{}", "cup")\<close>, a different pair with the same cache key, is resolved. After the
  message the cache key of the failed pair maps to the mesh of the cup, and in the next
  message the turn for \<open>("{}cu", "p")\<close> asks no backend: it takes the mesh of the cup.
  Processed alone, the failed pair is left out of the cache.
\<close>

theorem failed_key_is_cached_by_collision:
  "(type_db (ex_object ''{}cu'' ''p'' ''camera''), type_key (ex_object ''{}cu'' ''p'' ''camera'')) \<noteq>
   (type_db (ex_object ''{}'' ''cup'' ''camera''), type_key (ex_object ''{}'' ''cup'' ''camera'')) \<and>
   trace (processMessage ex_env
       [ex_object ''{}cu'' ''p'' ''camera'', ex_object ''{}'' ''cup'' ''camera''] OrkObjectDisplay_new) =
     [NewVisual 0, GenerateDb ''{}cu'', ObjectInfoQuery ''p'',
      RosError ''Cannot retrieve load mesh Object db not initialized'', GetTransform ''camera'' 0,
      NewVisual 1, GenerateDb ''{}'', ObjectInfoQuery ''cup'',
      LoadMesh ''package://meshes/cup.stl'', GetTransform ''camera'' 0] \<and>
   mesh_resources (processMessage ex_env [ex_object ''{}cu'' ''p'' ''camera''] OrkObjectDisplay_new)
     (object_hash (ex_object ''{}cu'' ''p'' ''camera'')) = None \<and>
   mesh_resources (processMessage ex_env
       [ex_object ''{}cu'' ''p'' ''camera'', ex_object ''{}'' ''cup'' ''camera''] OrkObjectDisplay_new)
     (object_hash (ex_object ''{}cu'' ''p'' ''camera'')) = Some ''package://meshes/cup.stl'' \<and>
   events_since
     (processMessage ex_env
       [ex_object ''{}cu'' ''p'' ''camera'', ex_object ''{}'' ''cup'' ''camera''] OrkObjectDisplay_new)
     (processMessage ex_env [ex_object ''{}cu'' ''p'' ''camera'']
       (processMessage ex_env
         [ex_object ''{}cu'' ''p'' ''camera'', ex_object ''{}'' ''cup'' ''camera''] OrkObjectDisplay_new)) =
     [NewVisual 2, GetTransform ''camera'' 0] \<and>
   map message (visuals
     (processMessage ex_env [ex_object ''{}cu'' ''p'' ''camera'']
       (processMessage ex_env
         [ex_object ''{}cu'' ''p'' ''camera'', ex_object ''{}'' ''cup'' ''camera''] OrkObjectDisplay_new))) =
     [Some (ex_object ''{}cu'' ''p'' ''camera'', ''package://meshes/cup.stl'')]"
  by code_simp

subsection \<open>The registry of temporary files\<close>

lemma recorded_paths_append [simp]:
  "recorded_paths (xs @ ys) = recorded_paths xs @ recorded_paths ys"
  by (simp add: recorded_paths_def map_filter_def)

lemma recorded_paths_simps [simp]:
  "recorded_paths [] = []"
  "recorded_paths (e # evs) = (case recorded_path e of None \<Rightarrow> recorded_paths evs | Some p \<Rightarrow> p # recorded_paths evs)"
  by (simp_all add: recorded_paths_def map_filter_def split: option.splits)

lemma recorded_paths_marks: "recorded_paths (marks evs) = recorded_paths evs"
proof (induction evs)
  case Nil
  then show ?case by simp
next
  case (Cons e evs)
  then show ?case by (cases e) simp_all
qed

lemma update_new_key:
  "k \<notin> fst ` set al \<Longrightarrow> AList.update k v al = al @ [(k, v)]"
  by (induction al) auto

lemma registry_inv_process_object:
  assumes "registry_inv nm st" and "tmpnam env = nm"
  shows "registry_inv nm (snd (process_object env d st))"
proof (cases "writes_temp_file env d st")
  case False
  have "recorded_paths (marks (trace (snd (process_object env d st)))) = recorded_paths (marks (trace st))"
    by (simp add: process_object_writes_not [OF False])
  then have "recorded_paths (trace (snd (process_object env d st))) = recorded_paths (trace st)"
    by (simp add: recorded_paths_marks)
  moreover have "dom (mesh_resources st) \<subseteq> dom (mesh_resources (snd (process_object env d st)))"
    by (auto simp: process_object_cache)
  then have "fst ` set (mesh_files st) \<subseteq> dom (mesh_resources (snd (process_object env d st)))"
    using assms(1) unfolding registry_inv_def by (meson order_trans)
  ultimately show ?thesis
    using assms(1) by (simp add: registry_inv_def process_object_writes_not [OF False])
next
  case True
  let ?f = "nm (tmpnam_calls st) @ ''.stl''"
  note eff = process_object_writes [OF True, unfolded assms(2)]
  have "object_hash d \<notin> dom (mesh_resources st)"
    using True by (auto simp: writes_temp_file_def)
  then have "object_hash d \<notin> fst ` set (mesh_files st)"
    using assms(1) by (auto simp: registry_inv_def)
  then have files: "mesh_files (snd (process_object env d st)) = mesh_files st @ [(object_hash d, ?f)]"
    by (simp add: eff(3) update_new_key)
  have "recorded_paths (marks (trace (snd (process_object env d st)))) =
      recorded_paths (marks (trace st)) @ [?f]"
    by (simp add: eff(4))
  then have rec: "recorded_paths (trace (snd (process_object env d st))) = recorded_paths (trace st) @ [?f]"
    by (simp add: recorded_paths_marks)
  show ?thesis
    using assms(1) by (auto simp: registry_inv_def files rec eff(1) eff(5))
qed

lemma registry_inv_process_objects:
  assumes "registry_inv nm st" and "tmpnam env = nm"
  shows "registry_inv nm (snd (process_objects env ds st))"
  using assms(1)
proof (induction ds arbitrary: st)
  case Nil
  then show ?case by simp
next
  case (Cons d ds)
  have step: "registry_inv nm (snd (process_object env d st))"
    using Cons.prems assms(2) by (rule registry_inv_process_object)
  from Cons.IH [OF step] step show ?case
    by (cases "process_object env d st") (auto split: bool.splits)
qed

lemma registry_inv_clear [simp]: "registry_inv nm (clear_visuals st) = registry_inv nm st"
  by (simp add: registry_inv_def)

lemma registry_inv_run:
  assumes "registry_inv nm st" and "\<forall>m \<in> set ms. tmpnam (fst m) = nm"
  shows "registry_inv nm (run ms st)"
  using assms
proof (induction ms arbitrary: st)
  case Nil
  then show ?case by simp
next
  case (Cons m ms)
  obtain env ds where m: "m = (env, ds)" by (cases m)
  have "registry_inv nm (processMessage env ds st)"
    unfolding processMessage_def
    using Cons.prems m by (intro registry_inv_process_objects) simp_all
  then show ?case
    using Cons.IH Cons.prems(2) m by simp
qed

lemma registry_inv_new: "registry_inv nm OrkObjectDisplay_new"
  by (simp add: registry_inv_def OrkObjectDisplay_new_def)

lemma destructor_effect:
  "trace (fold std_remove ps st) = trace st @ map Remove ps \<and>
   files (fold std_remove ps st) = files st - set ps"
  by (induction ps arbitrary: st) (auto simp: std_remove_def)

lemma removed_paths_set: "set (removed_paths st) = set (map snd (mesh_files st))"
  by (simp add: removed_paths_def)

lemma removed_paths_distinct:
  "distinct (removed_paths st) = distinct (map snd (mesh_files st))"
  by (simp add: removed_paths_def distinct_map)

lemma count_list_distinct: "distinct xs \<Longrightarrow> x \<in> set xs \<Longrightarrow> count_list xs x = 1"
  by (induction xs) auto

text \<open>
  C9. Let the names that \<open>tmpnam\<close> returns be all different, as the C standard has
  it generate a different string each time it is called. Then, whatever messages a
  display has processed since its construction, its destructor calls \<open>std::remove\<close>
  exactly once on every path ever recorded in \<open>mesh_files_\<close> and on nothing else, and
  afterwards none of these paths is among the files that exist.
\<close>

theorem destructor_removes_every_temp_file_once:
  assumes "\<forall>m \<in> set ms. tmpnam (fst m) = nm" and "inj nm"
  shows "(let st = run ms OrkObjectDisplay_new
          in events_since st (destructor st) = map Remove (removed_paths st) \<and>
             set (removed_paths st) = set (recorded_paths (trace st)) \<and>
             (\<forall>p \<in> set (recorded_paths (trace st)).
                count_list (removed_paths st) p = 1 \<and> p \<notin> files (destructor st)))"
proof -
  define st where "st = run ms OrkObjectDisplay_new"
  have inv: "registry_inv nm st"
    unfolding st_def using registry_inv_new assms(1) by (rule registry_inv_run)
  have "inj (\<lambda>i. nm i @ ''.stl'')"
    using assms(2) by (auto simp: inj_def)
  then have "distinct (map (\<lambda>i. nm i @ ''.stl'') [0..<tmpnam_calls st])"
    by (simp add: distinct_map inj_on_def inj_def)
  then have dist: "distinct (removed_paths st)"
    using inv by (simp add: removed_paths_distinct registry_inv_def)
  have same: "set (removed_paths st) = set (recorded_paths (trace st))"
    using inv by (simp add: removed_paths_set registry_inv_def)
  have ev: "events_since st (destructor st) = map Remove (removed_paths st)"
    by (simp add: destructor_def events_since_def destructor_effect)
  have gone: "p \<notin> files (destructor st)" if "p \<in> set (recorded_paths (trace st))" for p
    using that same by (simp add: destructor_def destructor_effect)
  show ?thesis
    using ev same dist gone
    by (simp add: Let_def st_def [symmetric] count_list_distinct)
qed


lemma ex_tmpnam_inj: "inj ex_tmpnam"
proof (rule injI)
  fix m n
  assume "ex_tmpnam m = ex_tmpnam n"
  then have "length (ex_tmpnam m) = length (ex_tmpnam n)"
    by simp
  then show "m = n"
    by (simp add: ex_tmpnam_def)
qed

theorem destructor_removes_every_temp_file_once_witness:
  "inj ex_tmpnam \<and>
   events_since
     (run [(ex_env, [ex_object ''{}'' ''can'' ''camera'', ex_object ''{}'' ''can'' ''camera'']),
           (ex_env, [ex_object ''{x}'' ''can'' ''camera''])] OrkObjectDisplay_new)
     (destructor
       (run [(ex_env, [ex_object ''{}'' ''can'' ''camera'', ex_object ''{}'' ''can'' ''camera'']),
             (ex_env, [ex_object ''{x}'' ''can'' ''camera''])] OrkObjectDisplay_new)) =
     [Remove ''/tmp/filea.stl'', Remove ''/tmp/file.stl''] \<and>
   recorded_paths (trace
     (run [(ex_env, [ex_object ''{}'' ''can'' ''camera'', ex_object ''{}'' ''can'' ''camera'']),
           (ex_env, [ex_object ''{x}'' ''can'' ''camera''])] OrkObjectDisplay_new)) =
     [''/tmp/file.stl'', ''/tmp/filea.stl''] \<and>
   ''/tmp/file.stl'' \<notin> files (destructor
     (run [(ex_env, [ex_object ''{}'' ''can'' ''camera'', ex_object ''{}'' ''can'' ''camera'']),
           (ex_env, [ex_object ''{x}'' ''can'' ''camera''])] OrkObjectDisplay_new))"
proof -
  let ?ms = "[(ex_env, [ex_object ''{}'' ''can'' ''camera'', ex_object ''{}'' ''can'' ''camera'']),
              (ex_env, [ex_object ''{x}'' ''can'' ''camera''])]"
  let ?st = "run ?ms OrkObjectDisplay_new"
  have names: "\<forall>m \<in> set ?ms. tmpnam (fst m) = ex_tmpnam"
    by (simp add: ex_env_def)
  have removed: "removed_paths ?st = [''/tmp/filea.stl'', ''/tmp/file.stl'']"
    by code_simp
  have recorded: "recorded_paths (trace ?st) = [''/tmp/file.stl'', ''/tmp/filea.stl'']"
    by code_simp
  note inst = destructor_removes_every_temp_file_once [OF names ex_tmpnam_inj, unfolded Let_def]
  have a: "events_since ?st (destructor ?st) = [Remove ''/tmp/filea.stl'', Remove ''/tmp/file.stl'']"
    using inst [THEN conjunct1] by (simp only: removed list.map)
  have "''/tmp/file.stl'' \<in> set (recorded_paths (trace ?st))"
    by (simp only: recorded) simp
  with inst [THEN conjunct2, THEN conjunct2]
  have b: "''/tmp/file.stl'' \<notin> files (destructor ?st)"
    by blast
  show ?thesis
    using ex_tmpnam_inj a recorded b by (intro conjI)
qed

end
